theory Spec2Isabelle
  imports Main "HOL-Library.Word"
begin

unbundle bit_operations_syntax

section \<open>Machine types\<close>

text \<open>
  Bytes and the fixed-width unsigned integers of the C source. The host is taken to be
  little-endian (the tool copies integers into the wire buffers with \<open>memcpy\<close>), with a
  32-bit \<open>int\<close>.
\<close>

type_synonym u8 = "8 word"
type_synonym u16 = "16 word"
type_synonym u32 = "32 word"

section \<open>SLIP state machine\<close>

text \<open>\<open>enum { END = 192, ESC = 219, ESC_END = 220, ESC_ESC = 221 }\<close>\<close>

definition END :: u8 where "END = 192"
definition ESC :: u8 where "ESC = 219"
definition ESC_END :: u8 where "ESC_END = 220"
definition ESC_ESC :: u8 where "ESC_ESC = 221"

text \<open>
  \<open>struct slip\<close>. The buffer is the caller's memory, modelled as the list of its bytes;
  \<open>size_slip\<close> is the field \<open>size\<close> (renamed, \<open>size\<close> being a constant of HOL).
\<close>

record slip =
  buf :: "u8 list"
  size_slip :: nat
  len :: nat
  mode :: int
  prev :: u8

text \<open>
  \<open>slip->buf[slip->len++] = v\<close>. A store past the end of the buffer's memory is undefined
  behaviour in C; the model returns \<open>None\<close> for it.
\<close>

definition slip_store :: "u8 \<Rightarrow> slip \<Rightarrow> slip option" where
  "slip_store v s =
     (if len s < length (buf s)
      then Some (s\<lparr>buf := (buf s)[len s := v], len := len s + 1\<rparr>)
      else None)"

text \<open>The body of \<open>if (slip->mode) { ... }\<close> up to the overflow test: result and state.\<close>

definition slip_recv_net :: "u8 \<Rightarrow> slip \<Rightarrow> (nat \<times> slip) option" where
  "slip_recv_net c s =
     (if prev s = ESC \<and> c = ESC_END then map_option (Pair 0) (slip_store END s)
      else if prev s = ESC \<and> c = ESC_ESC then map_option (Pair 0) (slip_store ESC s)
      else if c = END then Some (len s, s)
      else if c \<noteq> ESC then map_option (Pair 0) (slip_store c s)
      else Some (0, s))"

text \<open>\<open>if (slip->len >= slip->size) slip->len = 0;  // Silent overflow\<close>\<close>

definition slip_overflow :: "slip \<Rightarrow> slip" where
  "slip_overflow s = (if len s \<ge> size_slip s then s\<lparr>len := 0\<rparr> else s)"

text \<open>
  \<open>slip->prev = c; if (c == END) slip->len = 0, slip->mode = !slip->mode;\<close>
\<close>

definition slip_flip :: "u8 \<Rightarrow> slip \<Rightarrow> slip" where
  "slip_flip c s =
     (let s1 = s\<lparr>prev := c\<rparr>
      in if c = END then s1\<lparr>len := 0, mode := (if mode s1 = 0 then 1 else 0)\<rparr> else s1)"

text \<open>
  \<open>slip_recv\<close>: process the incoming byte \<open>c\<close>; returns the size of the buffered packet
  when a packet is closed, else 0, together with the updated state.
\<close>

definition slip_recv :: "u8 \<Rightarrow> slip \<Rightarrow> (nat \<times> slip) option" where
  "slip_recv c s =
     (if mode s \<noteq> 0
      then (case slip_recv_net c s of
              None \<Rightarrow> None
            | Some (res, s1) \<Rightarrow> Some (res, slip_flip c (slip_overflow s1)))
      else Some (0, slip_flip c s))"

text \<open>
  \<open>slip_send\<close>: the sequence of bytes handed to the sink \<open>fn\<close>, in order.
\<close>

definition slip_esc :: "u8 \<Rightarrow> u8 list" where
  "slip_esc c =
     (if c = END then [ESC, ESC_END]
      else if c = ESC then [ESC, ESC_ESC]
      else [c])"

definition slip_send :: "u8 list \<Rightarrow> u8 list" where
  "slip_send p = [END] @ concat (map slip_esc p) @ [END]"

text \<open>
  The receive loops of \<open>cmd\<close> and \<open>monitor\<close> pass each byte read to \<open>slip_recv\<close> and
  treat a non-zero result \<open>r\<close> as a packet of \<open>r\<close> bytes at the start of the buffer
  (\<open>if (r == 0) continue;\<close>). \<open>slip_feed\<close> does this for a list of bytes and collects the
  packets in the order they are completed.
\<close>

fun slip_feed :: "slip \<Rightarrow> u8 list \<Rightarrow> (slip \<times> u8 list list) option" where
  "slip_feed s [] = Some (s, [])"
| "slip_feed s (c # cs) =
     (case slip_recv c s of
        None \<Rightarrow> None
      | Some (r, s1) \<Rightarrow>
          (case slip_feed s1 cs of
             None \<Rightarrow> None
           | Some (s2, ps) \<Rightarrow> Some (s2, (if r = 0 then ps else take r (buf s1) # ps))))"

text \<open>
  The codec state that \<open>main\<close> sets up: \<open>struct ctx ctx = {0}\<close>, a 32 KiB buffer
  \<open>slipbuf\<close> (uninitialised in C; its contents are never read before being written).
\<close>

definition slip_main :: "u8 list \<Rightarrow> slip" where
  "slip_main slipbuf = \<lparr>buf = slipbuf, size_slip = 32768, len = 0, mode = 0, prev = 0\<rparr>"

text \<open>A codec state whose length is inside its buffer, and whose buffer has the size it declares.\<close>

definition slip_ok :: "slip \<Rightarrow> bool" where
  "slip_ok s = (len s < size_slip s \<and> length (buf s) = size_slip s)"

section \<open>Failures\<close>

text \<open>
  Every call of \<open>fail\<close> (which prints a message and exits) is a value of this type, named
  after its message. \<open>Out_of_bounds\<close> stands for a read outside the memory of an input
  file (undefined behaviour in C), and \<open>Loops_forever\<close> for a counting loop whose 8-bit
  counter could never reach its bound.
\<close>

datatype failure =
    Error_reading_chip_ID
  | Chip_mismatch string string
  | Unknown_chip_ID u32
  | Corrupt_ELF_file
  | Not_ELF32 u8
  | Hex_no_colon
  | Hex_bad_length
  | Out_of_bounds
  | Loops_forever

section \<open>Integers in memory\<close>

text \<open>What \<open>memcpy\<close> of a 16-bit and of a 32-bit integer writes on a little-endian host.\<close>

definition le16 :: "u16 \<Rightarrow> u8 list" where
  "le16 w = [ucast w, ucast (drop_bit 8 w)]"

definition le32 :: "u32 \<Rightarrow> u8 list" where
  "le32 w = [ucast w, ucast (drop_bit 8 w), ucast (drop_bit 16 w), ucast (drop_bit 24 w)]"

text \<open>The value of the bytes of a little-endian integer.\<close>

definition le_val :: "u8 list \<Rightarrow> nat" where
  "le_val bs = foldr (\<lambda>b a. unat b + 256 * a) bs 0"

text \<open>\<open>n\<close> bytes at offset \<open>off\<close> of a block of memory \<open>m\<close>.\<close>

definition rd_mem :: "u8 list \<Rightarrow> nat \<Rightarrow> nat \<Rightarrow> failure + u8 list" where
  "rd_mem m off n =
     (if n = 0 then Inr []
      else if off + n \<le> length m then Inr (take n (drop off m))
      else Inl Out_of_bounds)"

definition rd_u16 :: "u8 list \<Rightarrow> nat \<Rightarrow> failure + u16" where
  "rd_u16 m off = map_sum id (\<lambda>bs. word_of_nat (le_val bs)) (rd_mem m off 2)"

definition rd_u32 :: "u8 list \<Rightarrow> nat \<Rightarrow> failure + u32" where
  "rd_u32 m off = map_sum id (\<lambda>bs. word_of_nat (le_val bs)) (rd_mem m off 4)"

section \<open>Chip registry\<close>

definition CHIP_ID_ESP32 :: u32 where "CHIP_ID_ESP32 = 0x00f01d83"
definition CHIP_ID_ESP32_S2 :: u32 where "CHIP_ID_ESP32_S2 = 0x000007c6"
definition CHIP_ID_ESP32_C3_ECO_1_2 :: u32 where "CHIP_ID_ESP32_C3_ECO_1_2 = 0x6921506f"
definition CHIP_ID_ESP32_C3_ECO3 :: u32 where "CHIP_ID_ESP32_C3_ECO3 = 0x1b31506f"
definition CHIP_ID_ESP8266 :: u32 where "CHIP_ID_ESP8266 = 0xfff0c101"
definition CHIP_ID_ESP32_S3_BETA2 :: u32 where "CHIP_ID_ESP32_S3_BETA2 = 0xeb004136"
definition CHIP_ID_ESP32_S3_BETA3 :: u32 where "CHIP_ID_ESP32_S3_BETA3 = 0x9"
definition CHIP_ID_ESP32_C6_BETA :: u32 where "CHIP_ID_ESP32_C6_BETA = 0x0da1806f"

text \<open>\<open>struct chip\<close>; \<open>id_chip\<close> is the field \<open>id\<close> (\<open>id\<close> being a constant of HOL).\<close>

record chip =
  id_chip :: u32
  name :: string
  bla :: u32

definition s_known_chips :: "chip list" where
  "s_known_chips =
     [\<lparr>id_chip = 0, name = ''Unknown'', bla = 0\<rparr>,
      \<lparr>id_chip = CHIP_ID_ESP8266, name = ''ESP8266'', bla = 0\<rparr>,
      \<lparr>id_chip = CHIP_ID_ESP32, name = ''ESP32'', bla = 4096\<rparr>,
      \<lparr>id_chip = CHIP_ID_ESP32_C3_ECO_1_2, name = ''ESP32-C3-ECO2'', bla = 0\<rparr>,
      \<lparr>id_chip = CHIP_ID_ESP32_C3_ECO3, name = ''ESP32-C3-ECO3'', bla = 0\<rparr>,
      \<lparr>id_chip = CHIP_ID_ESP32_S2, name = ''ESP32-S2'', bla = 4096\<rparr>,
      \<lparr>id_chip = CHIP_ID_ESP32_S3_BETA2, name = ''ESP32-S3-BETA2'', bla = 0\<rparr>,
      \<lparr>id_chip = CHIP_ID_ESP32_S3_BETA3, name = ''ESP32-S3-BETA3'', bla = 0\<rparr>,
      \<lparr>id_chip = CHIP_ID_ESP32_C6_BETA, name = ''ESP32-C6-BETA'', bla = 0\<rparr>]"

text \<open>\<open>ctx.chip = s_known_chips[0];  // Set chip to unknown\<close>, in \<open>main\<close>.\<close>

definition chip_main :: chip where
  "chip_main = \<lparr>id_chip = 0, name = ''Unknown'', bla = 0\<rparr>"

section \<open>Serial commands\<close>

text \<open>
  \<open>cmd\<close>, first half: the bytes handed to \<open>slip_send\<close>, that is the first \<open>8 + len\<close> bytes
  of \<open>tmp\<close>. \<open>data\<close> is the memory at \<open>buf\<close>; copying more bytes than it holds, or more than
  the 16384 that \<open>tmp\<close> has room for, is undefined behaviour.
\<close>

definition cmd_request :: "u8 \<Rightarrow> u8 list \<Rightarrow> u16 \<Rightarrow> u32 \<Rightarrow> failure + u8 list" where
  "cmd_request op data len16 cs =
     (if unat len16 \<le> length data \<and> unat len16 \<le> 16384
      then Inr ([0, op] @ le16 len16 @ le32 cs @ take (unat len16) data)
      else Inl Out_of_bounds)"

text \<open>The request of \<open>read32\<close>: \<open>cmd(ctx, 10, &addr, sizeof(addr), 0, 100)\<close>.\<close>

definition read32_request :: "u32 \<Rightarrow> failure + u8 list" where
  "read32_request addr = cmd_request 10 (le32 addr) 4 0"

text \<open>
  \<open>cmd\<close>, second half. For a packet of \<open>r\<close> bytes in the buffer \<open>b\<close>:
  \<open>eofs = ctx->chip.id == 0 || ctx->chip.id == CHIP_ID_ESP8266 ? r - 2 : r - 4\<close> and
  \<open>ecode = ctx->slip.buf[eofs] ? ctx->slip.buf[eofs + 1] : 0\<close>.
\<close>

definition cmd_eofs :: "u32 \<Rightarrow> nat \<Rightarrow> nat" where
  "cmd_eofs chip_id r = (if chip_id = 0 \<or> chip_id = CHIP_ID_ESP8266 then r - 2 else r - 4)"

definition cmd_ecode :: "u8 list \<Rightarrow> nat \<Rightarrow> int" where
  "cmd_ecode b eofs = (if b ! eofs \<noteq> 0 then uint (b ! (eofs + 1)) else 0)"

text \<open>
  \<open>if (r < 10 || ctx->slip.buf[0] != 1 || ctx->slip.buf[1] != op) continue;\<close> is the result
  \<open>None\<close>; an accepted packet gives the value that \<open>cmd\<close> returns.
\<close>

definition cmd_frame :: "u32 \<Rightarrow> u8 \<Rightarrow> u8 list \<Rightarrow> nat \<Rightarrow> int option" where
  "cmd_frame chip_id op b r =
     (if r < 10 \<or> b ! 0 \<noteq> 1 \<or> b ! 1 \<noteq> op then None
      else Some (cmd_ecode b (cmd_eofs chip_id r)))"

text \<open>
  The loop \<open>for (i = 0; i < n; i++)\<close> of \<open>cmd\<close> over the bytes of one \<open>read\<close>: \<open>Some ecode\<close>
  when a packet is accepted (the rest of the bytes is dropped), \<open>None\<close> when the bytes run
  out and \<open>cmd\<close> waits for more.
\<close>

fun cmd_scan :: "u32 \<Rightarrow> u8 \<Rightarrow> slip \<Rightarrow> u8 list \<Rightarrow> (int option \<times> slip) option" where
  "cmd_scan chip_id op s [] = Some (None, s)"
| "cmd_scan chip_id op s (c # cs) =
     (case slip_recv c s of
        None \<Rightarrow> None
      | Some (r, s1) \<Rightarrow>
          if r = 0 then cmd_scan chip_id op s1 cs
          else (case cmd_frame chip_id op (buf s1) r of
                  None \<Rightarrow> cmd_scan chip_id op s1 cs
                | Some ecode \<Rightarrow> Some (Some ecode, s1)))"

section \<open>Chip detection\<close>

text \<open>
  The loop of \<open>chip_detect\<close> over \<open>s_known_chips\<close>; \<open>cur\<close> is \<open>ctx->chip\<close> before detection,
  the result is \<open>ctx->chip\<close> after it.
\<close>

fun chip_lookup :: "chip \<Rightarrow> u32 \<Rightarrow> chip list \<Rightarrow> failure + chip" where
  "chip_lookup cur chipid [] = Inl (Unknown_chip_ID chipid)"
| "chip_lookup cur chipid (k # ks) =
     (if id_chip k = chipid
      then (if id_chip cur \<noteq> 0 \<and> id_chip cur \<noteq> chipid
            then Inl (Chip_mismatch (name cur) (name k))
            else Inr k)
      else chip_lookup cur chipid ks)"

text \<open>
  \<open>chip_detect\<close>; \<open>ok\<close> and \<open>chipid\<close> are what \<open>read32(ctx, 0x40001000, &chipid)\<close> returns
  and stores.
\<close>

definition chip_detect :: "chip \<Rightarrow> int \<Rightarrow> u32 \<Rightarrow> failure + chip" where
  "chip_detect cur ok chipid =
     (if ok \<noteq> 0 then Inl Error_reading_chip_ID else chip_lookup cur chipid s_known_chips)"

section \<open>Flashing\<close>

text \<open>
  The \<open>FLASH_BEGIN\<close> command of \<open>flashbin\<close>. \<open>fsize\<close> is the \<open>int size\<close> that \<open>ftell\<close> gave;
  in \<open>(size + block_size - 1) / block_size\<close> it is converted to \<open>uint32_t\<close>. The array
  \<open>d1\<close> has five 32-bit words, so \<open>sizeof(d1)\<close> is 20 and \<open>d1size\<close> starts as \<open>20 - 4\<close>.
\<close>

definition flash_begin_d1 :: "int \<Rightarrow> u32 \<Rightarrow> u32 list" where
  "flash_begin_d1 fsize flash_offset =
     (let block_size = 4096;
          encrypted = 0;
          num_blocks = (word_of_int fsize + block_size - 1) div block_size
      in [word_of_int fsize, num_blocks, block_size, flash_offset, encrypted])"

definition flash_begin_d1size :: "u32 \<Rightarrow> u16" where
  "flash_begin_d1size chip_id =
     (let d1size = 20 - 4
      in if chip_id = CHIP_ID_ESP32_S2 \<or> chip_id = CHIP_ID_ESP32_S3_BETA2
            \<or> chip_id = CHIP_ID_ESP32_S3_BETA3 \<or> chip_id = CHIP_ID_ESP32_C6_BETA
            \<or> chip_id = CHIP_ID_ESP32_C3_ECO_1_2 \<or> chip_id = CHIP_ID_ESP32_C3_ECO3
         then d1size + 4 else d1size)"

text \<open>\<open>cmd(ctx, 2, d1, d1size, 0, 15000)\<close>: the request, and its body (after the 8-byte header).\<close>

definition flash_begin_request :: "u32 \<Rightarrow> int \<Rightarrow> u32 \<Rightarrow> failure + u8 list" where
  "flash_begin_request chip_id fsize flash_offset =
     cmd_request 2 (concat (map le32 (flash_begin_d1 fsize flash_offset)))
       (flash_begin_d1size chip_id) 0"

definition flash_begin_body :: "u32 \<Rightarrow> int \<Rightarrow> u32 \<Rightarrow> failure + u8 list" where
  "flash_begin_body chip_id fsize flash_offset =
     map_sum id (drop 8) (flash_begin_request chip_id fsize flash_offset)"

section \<open>ELF to image: \<open>mkbin\<close>\<close>

text \<open>\<open>checksum2\<close>: \<open>while (len--) v ^= *buf++;\<close>\<close>

definition checksum2 :: "u8 \<Rightarrow> u8 list \<Rightarrow> u8" where
  "checksum2 v b = foldl (XOR) v b"

text \<open>
  \<open>align_to\<close>, on \<open>unsigned long\<close>, taken to be 64 bits wide (LP64):
  \<open>((n + to - 1) / to) * to\<close>, the sum wrapping around at \<open>2 ^ 64\<close>.
\<close>

definition align_to :: "nat \<Rightarrow> nat \<Rightarrow> nat" where
  "align_to n to = ((n + to - 1) mod 2 ^ 64) div to * to"

record Elf32_Phdr =
  p_type :: u32
  p_offset :: u32
  p_vaddr :: u32
  p_paddr :: u32
  p_filesz :: u32
  p_memsz :: u32
  p_flags :: u32
  p_align :: u32

text \<open>
  The fields of \<open>struct Elf32_Ehdr\<close> that the tool reads, at their offsets in the file:
  \<open>e_entry\<close> at 24, \<open>e_phoff\<close> at 28, \<open>e_phnum\<close> at 44. \<open>elf\<close> is the memory that
  \<open>read_entire_file\<close> returns, \<open>length elf\<close> its \<open>len\<close>.
\<close>

definition elf_get_num_segments :: "u8 list \<Rightarrow> failure + int" where
  "elf_get_num_segments elf = map_sum id uint (rd_u16 elf 44)"

definition elf_get_entry_point :: "u8 list \<Rightarrow> failure + u32" where
  "elf_get_entry_point elf = rd_u32 elf 24"

text \<open>One \<open>struct Elf32_Phdr\<close> (32 bytes) at offset \<open>off\<close>.\<close>

definition rd_phdr :: "u8 list \<Rightarrow> nat \<Rightarrow> failure + Elf32_Phdr" where
  "rd_phdr m off =
     (case rd_mem m off 32 of
        Inl e \<Rightarrow> Inl e
      | Inr bs \<Rightarrow>
          Inr \<lparr>p_type = word_of_nat (le_val (take 4 bs)),
               p_offset = word_of_nat (le_val (take 4 (drop 4 bs))),
               p_vaddr = word_of_nat (le_val (take 4 (drop 8 bs))),
               p_paddr = word_of_nat (le_val (take 4 (drop 12 bs))),
               p_filesz = word_of_nat (le_val (take 4 (drop 16 bs))),
               p_memsz = word_of_nat (le_val (take 4 (drop 20 bs))),
               p_flags = word_of_nat (le_val (take 4 (drop 24 bs))),
               p_align = word_of_nat (le_val (take 4 (drop 28 bs)))\<rparr>)"

text \<open>
  \<open>elf_get_phdr\<close>: \<open>h = elf->ptr + e->e_phoff; if (h->p_filesz == 0) no++; return h[no];\<close>
\<close>

definition elf_get_phdr :: "u8 list \<Rightarrow> int \<Rightarrow> failure + Elf32_Phdr" where
  "elf_get_phdr elf no =
     (case rd_u32 elf 28 of
        Inl e \<Rightarrow> Inl e
      | Inr e_phoff \<Rightarrow>
          (case rd_u32 elf (unat e_phoff + 16) of
             Inl e \<Rightarrow> Inl e
           | Inr filesz0 \<Rightarrow>
               rd_phdr elf (unat e_phoff + 32 * nat (if filesz0 = 0 then no + 1 else no))))"

text \<open>
  One round of the loop over the segments: the bytes it writes to the output file and the
  new checksum. The padding loop \<open>for (j = 0; j < aligned_size - h.p_filesz; j++)\<close> counts
  with a \<open>uint8_t\<close>, so it ends only if the bound is at most 255.
\<close>

definition mkbin_segment :: "u8 list \<Rightarrow> int \<Rightarrow> u8 \<Rightarrow> failure + (u8 list \<times> u8)" where
  "mkbin_segment elf i cs =
     (case elf_get_phdr elf i of
        Inl e \<Rightarrow> Inl e
      | Inr h \<Rightarrow>
          (let load_address = p_vaddr h;
               aligned_size = (word_of_nat (align_to (unat (p_filesz h)) 4) :: u32);
               npad = unat (aligned_size - p_filesz h)
           in case rd_mem elf (unat (p_offset h)) (unat (p_filesz h)) of
                Inl e \<Rightarrow> Inl e
              | Inr payload \<Rightarrow>
                  if 255 < npad then Inl Loops_forever
                  else Inr (le32 load_address @ le32 aligned_size @ payload @ replicate npad 0,
                            checksum2 cs payload)))"

text \<open>
  \<open>for (i = 0; i < num_segments; i++)\<close>: the writes of each round, in order, and the
  checksum at the end.
\<close>

function mkbin_loop :: "u8 list \<Rightarrow> nat \<Rightarrow> nat \<Rightarrow> u8 \<Rightarrow> failure + (u8 list list \<times> u8)" where
  "mkbin_loop elf i num_segments cs =
     (if i < num_segments
      then (case mkbin_segment elf (int i) cs of
              Inl e \<Rightarrow> Inl e
            | Inr (w, cs1) \<Rightarrow>
                (case mkbin_loop elf (i + 1) num_segments cs1 of
                   Inl e \<Rightarrow> Inl e
                 | Inr (ws, cs2) \<Rightarrow> Inr (w # ws, cs2)))
      else Inr ([], cs))"
  by pat_completeness auto
termination
  by (relation "measure (\<lambda>(elf, i, num_segments, cs). num_segments - i)") auto

declare mkbin_loop.simps [simp del]

text \<open>
  \<open>mkbin\<close>, as the sequence of its writes: the 24 bytes of the three headers, the writes of
  the segment loop, the padding, the checksum byte. \<open>chip_id\<close> is \<open>ctx->chip.id\<close>.
\<close>

definition mkbin_writes ::
  "u32 \<Rightarrow> u8 list \<Rightarrow> failure + (u8 list \<times> u8 list list \<times> u8 list \<times> u8)" where
  "mkbin_writes chip_id elf =
     (case elf_get_num_segments elf of
        Inl e \<Rightarrow> Inl e
      | Inr phnum \<Rightarrow>
     (case elf_get_entry_point elf of
        Inl e \<Rightarrow> Inl e
      | Inr entrypoint \<Rightarrow>
          (let num_segments = (word_of_int phnum :: u8);
               extended_hdr =
                 (if chip_id = 0x000007c6
                  then [0x00, 0, 0, 0, 2, 0, 0, 0, 0, 0, 0, 0, 0, 0, 0, 0]
                  else [0xee, 0, 0, 0, 2, 0, 0, 0, 0, 0, 0, 0, 0, 0, 0, 0]);
               common_hdr = [0xe9, num_segments, 0, 0]
           in if length elf < 32 then Inl Corrupt_ELF_file
              else if elf ! 4 \<noteq> 1 then Inl (Not_ELF32 (elf ! 4))
              else (case mkbin_loop elf 0 (unat num_segments) 0xef of
                      Inl e \<Rightarrow> Inl e
                    | Inr (ws, cs) \<Rightarrow>
                        (let hdr = common_hdr @ le32 entrypoint @ extended_hdr;
                             ofs = length (hdr @ concat ws);
                             aligned_ofs = align_to (ofs + 1) 16;
                             npad = aligned_ofs - ofs - 1
                         in if 255 < npad then Inl Loops_forever
                            else Inr (hdr, ws, replicate npad 0, cs))))))"

text \<open>The contents of the output file.\<close>

definition mkbin :: "u32 \<Rightarrow> u8 list \<Rightarrow> failure + u8 list" where
  "mkbin chip_id elf =
     map_sum id (\<lambda>(hdr, ws, pad, cs). hdr @ concat ws @ pad @ [cs]) (mkbin_writes chip_id elf)"

section \<open>Intel HEX: \<open>mkhex\<close> and \<open>unhex\<close>\<close>

text \<open>\<open>unsigned long\<close>, taken to be 64 bits wide (LP64).\<close>

type_synonym ulong = "64 word"

subsection \<open>Encoder\<close>

text \<open>
  \<open>printf\<close> with the conversion \<open>%0wx\<close>: the value in lower-case hexadecimal, padded with
  zeros on the left to at least \<open>w\<close> characters.
\<close>

definition hexdigit :: "nat \<Rightarrow> char" where
  "hexdigit d = ''0123456789abcdef'' ! d"

function hex_str :: "nat \<Rightarrow> string" where
  "hex_str v = (if v < 16 then [hexdigit v] else hex_str (v div 16) @ [hexdigit (v mod 16)])"
  by pat_completeness auto
termination
  by (relation "measure id") auto

declare hex_str.simps [simp del]

definition printf_0x :: "nat \<Rightarrow> nat \<Rightarrow> string" where
  "printf_0x w v = replicate (w - length (hex_str v)) (CHR ''0'') @ hex_str v"

text \<open>
  \<open>printhexline\<close>; its \<open>int\<close> arguments are never negative in this program and are taken
  as naturals, \<open>b\<close> holds the first \<open>len\<close> entries of \<open>buf\<close>, and \<open>cs\<close> is an \<open>unsigned\<close>.
\<close>

definition printhexline :: "nat \<Rightarrow> nat \<Rightarrow> nat \<Rightarrow> nat list \<Rightarrow> string" where
  "printhexline type len1 addr b =
     (let cs0 = (of_nat type + of_nat len1 + of_nat ((addr div 256) mod 256)
                 + of_nat (addr mod 256) :: u32);
          cs = foldl (\<lambda>cs x. cs + of_nat x) cs0 (take len1 b)
      in '':'' @ printf_0x 2 len1 @ printf_0x 4 (addr mod 65536) @ printf_0x 2 type
         @ concat (map (printf_0x 2) (take len1 b))
         @ printf_0x 2 (unat ((NOT cs + 1) AND 255)) @ [CHR 0x0A])"

definition printhexhiaddrline :: "ulong \<Rightarrow> string" where
  "printhexhiaddrline addr =
     printhexline 4 2 0 [unat (drop_bit 24 addr AND 255), unat (drop_bit 16 addr AND 255)]"

text \<open>
  The body of \<open>if (n >= 16 || c == EOF) { ... }\<close> in \<open>mkhex\<close>, for the \<open>n = length b\<close>
  bytes collected in \<open>buf\<close>: what it prints.
\<close>

definition mkhex_flush :: "ulong \<Rightarrow> u8 list \<Rightarrow> string" where
  "mkhex_flush addr b =
     (if addr \<ge> 0xffff \<and> addr AND 0xffff = 0 then printhexhiaddrline addr else [])
     @ (if length b > 0 then printhexline 0 (length b) (unat (addr AND 0xffff)) (map unat b)
        else [])"

text \<open>
  The loop \<open>for (;;)\<close> of \<open>mkhex\<close> over the bytes that \<open>fgetc\<close> returns; the end of the
  list is \<open>EOF\<close>.
\<close>

fun mkhex_loop :: "ulong \<Rightarrow> u8 list \<Rightarrow> u8 list \<Rightarrow> string" where
  "mkhex_loop addr b [] = mkhex_flush addr b"
| "mkhex_loop addr b (c # cs) =
     (let b1 = b @ [c]
      in if length b1 \<ge> 16
         then mkhex_flush addr b1 @ mkhex_loop (addr + of_nat (length b1)) [] cs
         else mkhex_loop addr b1 cs)"

text \<open>
  \<open>mkhex\<close>: the text printed for the pairs of an address (what \<open>strtoul\<close> made of
  \<open>args[0]\<close>) and the contents of the file \<open>args[1]\<close>.
\<close>

definition mkhex :: "(ulong \<times> u8 list) list \<Rightarrow> string" where
  "mkhex args =
     concat (map (\<lambda>(addr, d). printhexhiaddrline addr @ mkhex_loop addr [] d) args)
     @ printhexline 1 0 0 []"

subsection \<open>Decoder\<close>

text \<open>
  \<open>hex_to_ul\<close>, for the \<open>len\<close> characters at \<open>s\<close>. \<open>int c = s[i]\<close> reads a \<open>char\<close>, taken to
  be signed; the digit, an \<open>int\<close>, is converted to \<open>unsigned long\<close> by \<open>v |= ...\<close>.
\<close>

definition hex_digit_val :: "char \<Rightarrow> int" where
  "hex_digit_val ch =
     (let c = sint (of_char ch :: u8)
      in if 48 \<le> c \<and> c \<le> 57 then c - 48
         else if 65 \<le> c \<and> c \<le> 70 then c - 55
         else c - 87)"

definition hex_to_ul :: "string \<Rightarrow> ulong" where
  "hex_to_ul s = foldl (\<lambda>v ch. push_bit 4 v OR word_of_int (hex_digit_val ch)) 0 s"

text \<open>\<open>isspace\<close> in the C locale.\<close>

definition isspace_c :: "char \<Rightarrow> bool" where
  "isspace_c c = ((of_char c :: nat) \<in> {32, 9, 10, 11, 12, 13})"

text \<open>
  The state of \<open>unhex\<close>: the line buffer \<open>tmp\<close> (600 characters) and \<open>n\<close>, \<open>upper\<close>, \<open>next\<close>,
  the output file \<open>out\<close> (\<open>None\<close> for \<open>NULL\<close>), and the files written so far. A file is
  named after its address (\<open>"%s/%#lx.bin"\<close>), so the files are kept as pairs of an address
  and the contents, in the order of their creation.
\<close>

record unhex_state =
  u_tmp :: string
  u_n :: nat
  u_upper :: ulong
  u_next :: ulong
  u_out :: "ulong option"
  u_files :: "(ulong \<times> u8 list) list"

text \<open>\<open>fopen(path, "wb")\<close> creates the file or empties it; \<open>fputc\<close> appends to it.\<close>

definition fopen_wb :: "ulong \<Rightarrow> (ulong \<times> u8 list) list \<Rightarrow> (ulong \<times> u8 list) list" where
  "fopen_wb a fs = filter (\<lambda>(k, d). k \<noteq> a) fs @ [(a, [])]"

definition fputcs :: "ulong \<Rightarrow> u8 list \<Rightarrow> (ulong \<times> u8 list) list \<Rightarrow> (ulong \<times> u8 list) list" where
  "fputcs a bs fs = map (\<lambda>(k, d). if k = a then (k, d @ bs) else (k, d)) fs"

text \<open>
  The body of \<open>if (n >= (int) sizeof(tmp) || c == '\n') { ... }\<close>: one line of the HEX file.
\<close>

definition unhex_line :: "unhex_state \<Rightarrow> failure + unhex_state" where
  "unhex_line st =
     (let t = u_tmp st;
          len1 = sint (ucast (hex_to_ul (take 2 (drop 1 t))) :: u32);
          lower = hex_to_ul (take 4 (drop 3 t));
          type = sint (ucast (hex_to_ul (take 2 (drop 7 t))) :: u32);
          addr = u_upper st OR lower
      in if t ! 0 \<noteq> CHR '':'' then Inl Hex_no_colon
         else if int (u_n st) \<noteq> 1 + 2 + 4 + 2 + len1 * 2 + 2 then Inl Hex_bad_length
         else Inr
           ((if type = 0 then
               (let bytes = map (\<lambda>i. ucast (hex_to_ul (take 2 (drop (9 + i * 2) t))) :: u8)
                              [0..<nat len1];
                    (f, fs) = (case u_out st of
                                 None \<Rightarrow> (addr, fopen_wb addr (u_files st))
                               | Some f \<Rightarrow>
                                   if u_next st \<noteq> addr then (addr, fopen_wb addr (u_files st))
                                   else (f, u_files st))
                in st\<lparr>u_out := Some f, u_files := fputcs f bytes fs,
                      u_next := addr + word_of_int len1\<rparr>)
             else if type = 1 then st\<lparr>u_out := None\<rparr>
             else if type = 4 then st\<lparr>u_upper := push_bit 16 (hex_to_ul (take 4 (drop 9 t)))\<rparr>
             else st)\<lparr>u_n := 0\<rparr>))"

text \<open>
  One round of \<open>while ((c = fgetc(in)) != EOF)\<close>:
  \<open>if (!isspace(c)) tmp[n++] = c;\<close> and then the line, when it is complete.
\<close>

definition unhex_char :: "char \<Rightarrow> unhex_state \<Rightarrow> failure + unhex_state" where
  "unhex_char c st =
     (let st1 = (if \<not> isspace_c c
                 then st\<lparr>u_tmp := (u_tmp st)[u_n st := c], u_n := u_n st + 1\<rparr>
                 else st)
      in if u_n st1 \<ge> 600 \<or> c = CHR 0x0A then unhex_line st1 else Inr st1)"

fun unhex_loop :: "unhex_state \<Rightarrow> string \<Rightarrow> failure + unhex_state" where
  "unhex_loop st [] = Inr st"
| "unhex_loop st (c # cs) =
     (case unhex_char c st of
        Inl e \<Rightarrow> Inl e
      | Inr st1 \<Rightarrow> unhex_loop st1 cs)"

text \<open>
  \<open>unhex\<close>: the files it leaves for the contents \<open>hex\<close> of the HEX file. \<open>tmp0\<close> is what
  the 600 characters of \<open>tmp\<close>, which the program does not initialise, hold at the start.
\<close>

definition unhex :: "string \<Rightarrow> string \<Rightarrow> failure + (ulong \<times> u8 list) list" where
  "unhex tmp0 hex =
     map_sum id u_files
       (unhex_loop \<lparr>u_tmp = tmp0, u_n = 0, u_upper = 0, u_next = 0, u_out = None, u_files = []\<rparr>
          hex)"

section \<open>An ELF file\<close>

text \<open>
  A small ELF32 file, used to run \<open>mkbin\<close>: the 52-byte header (entry point
  \<open>0x40080000\<close>, \<open>e_phoff = 52\<close>, \<open>e_phnum = 2\<close>), two program headers, and the contents
  of the two segments, \<open>abcd\<close> to be loaded at \<open>0x3FFB0000\<close> and \<open>hello\<close> at \<open>0x40080000\<close>.
\<close>

definition elf_example :: "u8 list" where
  "elf_example = [
      0x7f, 0x45, 0x4c, 0x46, 0x01, 0x01, 0x01, 0x00, 0x00, 0x00, 0x00, 0x00, 0x00, 0x00, 0x00, 0x00,
      0x02, 0x00, 0x5e, 0x00, 0x01, 0x00, 0x00, 0x00, 0x00, 0x00, 0x08, 0x40, 0x34, 0x00, 0x00, 0x00,
      0x00, 0x00, 0x00, 0x00, 0x00, 0x00, 0x00, 0x00, 0x34, 0x00, 0x20, 0x00, 0x02, 0x00, 0x28, 0x00,
      0x00, 0x00, 0x00, 0x00, 0x01, 0x00, 0x00, 0x00, 0x74, 0x00, 0x00, 0x00, 0x00, 0x00, 0xfb, 0x3f,
      0x00, 0x00, 0xfb, 0x3f, 0x04, 0x00, 0x00, 0x00, 0x04, 0x00, 0x00, 0x00, 0x06, 0x00, 0x00, 0x00,
      0x04, 0x00, 0x00, 0x00, 0x01, 0x00, 0x00, 0x00, 0x78, 0x00, 0x00, 0x00, 0x00, 0x00, 0x08, 0x40,
      0x00, 0x00, 0x08, 0x40, 0x05, 0x00, 0x00, 0x00, 0x05, 0x00, 0x00, 0x00, 0x05, 0x00, 0x00, 0x00,
      0x04, 0x00, 0x00, 0x00, 0x61, 0x62, 0x63, 0x64, 0x68, 0x65, 0x6c, 0x6c, 0x6f]"

text \<open>The same file with \<open>e_phnum = 258\<close> in its header.\<close>

definition elf_example_258 :: "u8 list" where
  "elf_example_258 = elf_example[45 := 1]"

text \<open>
  The image expected for both files: the headers with 2 segments and the entry point, the
  two segments (the second padded from 5 to 8 bytes), zeros up to offset 62, and the
  checksum \<open>0x89\<close>, 64 bytes in all.
\<close>

definition image_example :: "u8 list" where
  "image_example = [
      0xe9, 0x02, 0x00, 0x00, 0x00, 0x00, 0x08, 0x40, 0xee, 0x00, 0x00, 0x00, 0x02, 0x00, 0x00, 0x00,
      0x00, 0x00, 0x00, 0x00, 0x00, 0x00, 0x00, 0x00, 0x00, 0x00, 0xfb, 0x3f, 0x04, 0x00, 0x00, 0x00,
      0x61, 0x62, 0x63, 0x64, 0x00, 0x00, 0x08, 0x40, 0x08, 0x00, 0x00, 0x00, 0x68, 0x65, 0x6c, 0x6c,
      0x6f, 0x00, 0x00, 0x00, 0x00, 0x00, 0x00, 0x00, 0x00, 0x00, 0x00, 0x00, 0x00, 0x00, 0x00, 0x89]"

section \<open>Auxiliary facts\<close>

lemma replicate_numeral_Cons: "replicate (numeral k) x = x # replicate (pred_numeral k) x"
  by (simp add: numeral_eq_Suc)

lemma length_le32: "length (le32 w) = 4"
  by (simp add: le32_def)


section \<open>Properties of the SLIP state machine\<close>

lemma slip_consts_distinct:
  "END \<noteq> ESC" "END \<noteq> ESC_END" "END \<noteq> ESC_ESC" "ESC \<noteq> ESC_END" "ESC \<noteq> ESC_ESC"
  "ESC_END \<noteq> ESC_ESC"
  by (simp_all add: END_def ESC_def ESC_END_def ESC_ESC_def)

lemmas slip_recv_defs =
  slip_recv_def slip_recv_net_def slip_store_def slip_overflow_def slip_flip_def Let_def

text \<open>
  From a state whose length is inside the buffer, a byte is processed without a store
  outside the buffer, and the next state is again such a state.
\<close>

lemma slip_recv_step:
  assumes "slip_ok s"
  shows "\<exists>r s1. slip_recv c s = Some (r, s1) \<and> slip_ok s1 \<and> size_slip s1 = size_slip s
           \<and> length (buf s1) = length (buf s)
           \<and> mode s1 = (if c = END then (if mode s = 0 then 1 else 0) else mode s)
           \<and> (mode s \<noteq> 0 \<and> c \<noteq> END \<and> c \<noteq> ESC \<and> size_slip s \<le> len s + 1 \<longrightarrow> len s1 = 0)"
  using assms by (auto simp: slip_recv_defs slip_ok_def)

lemma slip_feed_ok:
  "slip_ok s \<Longrightarrow>
     \<exists>s1 ps. slip_feed s cs = Some (s1, ps) \<and> slip_ok s1 \<and> size_slip s1 = size_slip s
       \<and> length (buf s1) = length (buf s)"
proof (induction cs arbitrary: s)
  case Nil
  then show ?case by simp
next
  case (Cons c cs)
  from slip_recv_step [OF Cons.prems, of c] obtain r s1 where
    r: "slip_recv c s = Some (r, s1)" "slip_ok s1" "size_slip s1 = size_slip s"
       "length (buf s1) = length (buf s)" by blast
  from Cons.IH [OF r(2)] obtain s2 ps where
    f: "slip_feed s1 cs = Some (s2, ps)" "slip_ok s2" "size_slip s2 = size_slip s1"
       "length (buf s2) = length (buf s1)" by blast
  show ?case using r f by simp
qed

lemma slip_ok_main: "length slipbuf = 32768 \<Longrightarrow> slip_ok (slip_main slipbuf)"
  by (simp add: slip_ok_def slip_main_def)

text \<open>
  Claim C5. Whatever bytes the decoder has processed, one at a time, from a state whose
  length is inside its buffer, and whatever byte \<open>c\<close> comes next: the length before and
  after \<open>c\<close> does not exceed the capacity, the capacity and the buffer's memory stay as
  they were, and if \<open>c\<close> is appended in packet mode (it is neither the delimiter nor the
  escape byte) and the append reaches the capacity, the length after \<open>c\<close> is zero.
\<close>

theorem slip_length_invariant:
  assumes "slip_ok s"
  shows "\<exists>s1 ps r s2. slip_feed s cs = Some (s1, ps) \<and> slip_recv c s1 = Some (r, s2)
           \<and> len s1 \<le> size_slip s1 \<and> len s2 \<le> size_slip s2
           \<and> size_slip s2 = size_slip s \<and> length (buf s2) = length (buf s)
           \<and> (mode s1 \<noteq> 0 \<and> c \<noteq> END \<and> c \<noteq> ESC \<and> size_slip s1 \<le> len s1 + 1
                \<longrightarrow> len s2 = 0)"
proof -
  from slip_feed_ok [OF assms, of cs] obtain s1 ps where
    f: "slip_feed s cs = Some (s1, ps)" "slip_ok s1" "size_slip s1 = size_slip s"
       "length (buf s1) = length (buf s)" by blast
  from slip_recv_step [OF f(2), of c] obtain r s2 where
    r: "slip_recv c s1 = Some (r, s2)" "slip_ok s2" "size_slip s2 = size_slip s1"
       "length (buf s2) = length (buf s1)"
       "mode s1 \<noteq> 0 \<and> c \<noteq> END \<and> c \<noteq> ESC \<and> size_slip s1 \<le> len s1 + 1 \<longrightarrow> len s2 = 0"
    by blast
  from f(2) r(2) have "len s1 \<le> size_slip s1" "len s2 \<le> size_slip s2"
    by (simp_all add: slip_ok_def)
  with f r show ?thesis by simp
qed

theorem slip_length_invariant_witness:
  "slip_ok (slip_main (replicate 32768 0))
   \<and> (\<exists>s1 ps r s2.
         slip_feed (slip_main (replicate 32768 0)) [0xC0, 0x01, 0x02] = Some (s1, ps)
         \<and> slip_recv 0x03 s1 = Some (r, s2)
         \<and> len s1 \<le> size_slip s1 \<and> len s2 \<le> size_slip s2
         \<and> size_slip s2 = size_slip (slip_main (replicate 32768 0))
         \<and> length (buf s2) = length (buf (slip_main (replicate 32768 0)))
         \<and> (mode s1 \<noteq> 0 \<and> 0x03 \<noteq> END \<and> 0x03 \<noteq> ESC \<and> size_slip s1 \<le> len s1 + 1
              \<longrightarrow> len s2 = 0))"
proof -
  have ok: "slip_ok (slip_main (replicate 32768 0))"
    by (rule slip_ok_main) simp
  from ok slip_length_invariant [OF ok, of "[0xC0, 0x01, 0x02]" "0x03"]
  show ?thesis by (rule conjI)
qed

text \<open>
  Claim C6. A byte processed from a state whose length is inside its buffer changes the
  mode if and only if it is the delimiter \<open>0xC0\<close>; the delimiter turns mode 0 into 1 and
  any other mode into 0.
\<close>

theorem slip_mode_flip:
  assumes "slip_ok s"
  shows "\<exists>r s1. slip_recv c s = Some (r, s1)
           \<and> ((mode s1 \<noteq> mode s) = (c = 0xC0))
           \<and> mode s1 = (if c = 0xC0 then (if mode s = 0 then 1 else 0) else mode s)"
proof -
  from slip_recv_step [OF assms, of c] obtain r s1 where
    r: "slip_recv c s = Some (r, s1)"
       "mode s1 = (if c = END then (if mode s = 0 then 1 else 0) else mode s)"
    by blast
  have "(mode s1 \<noteq> mode s) = (c = END)" using r(2) by simp
  with r show ?thesis by (simp add: END_def)
qed

theorem slip_mode_flip_witness:
  "slip_ok (slip_main (replicate 32768 0))
   \<and> (\<exists>r s1. slip_recv 0xC0 (slip_main (replicate 32768 0)) = Some (r, s1)
         \<and> ((mode s1 \<noteq> mode (slip_main (replicate 32768 0))) = ((0xC0 :: u8) = 0xC0))
         \<and> mode s1 = (if (0xC0 :: u8) = 0xC0
                        then (if mode (slip_main (replicate 32768 0)) = 0 then 1 else 0)
                        else mode (slip_main (replicate 32768 0))))"
proof -
  have ok: "slip_ok (slip_main (replicate 32768 0))"
    by (rule slip_ok_main) simp
  from ok slip_mode_flip [OF ok, of "0xC0"]
  show ?thesis by (rule conjI)
qed

subsection \<open>Encoding, then decoding\<close>

lemma slip_feed_append:
  "slip_feed s (xs @ ys) =
     (case slip_feed s xs of
        None \<Rightarrow> None
      | Some (s1, ps) \<Rightarrow>
          (case slip_feed s1 ys of None \<Rightarrow> None | Some (s2, qs) \<Rightarrow> Some (s2, ps @ qs)))"
  by (induction xs arbitrary: s) (auto split: option.splits)

lemma last_slip_esc: "last (slip_esc c) \<noteq> ESC"
  by (simp add: slip_esc_def END_def ESC_def ESC_END_def ESC_ESC_def)

text \<open>In packet mode, the encoding of one byte appends that byte to the buffer.\<close>

lemma slip_feed_esc:
  assumes "mode s \<noteq> 0" "prev s \<noteq> ESC" "length (buf s) = size_slip s"
    "Suc (len s) < size_slip s"
  shows "slip_feed s (slip_esc c) =
           Some (s\<lparr>buf := (buf s)[len s := c], len := Suc (len s), prev := last (slip_esc c)\<rparr>, [])"
  using assms slip_consts_distinct
  by (auto simp: slip_esc_def slip_recv_defs)

lemma slip_feed_payload:
  assumes "mode s \<noteq> 0" "prev s \<noteq> ESC" "length (buf s) = size_slip s"
    "len s + length B < size_slip s"
  shows "\<exists>s1. slip_feed s (concat (map slip_esc B)) = Some (s1, []) \<and> mode s1 = mode s
           \<and> prev s1 \<noteq> ESC \<and> size_slip s1 = size_slip s \<and> length (buf s1) = size_slip s
           \<and> len s1 = len s + length B
           \<and> take (len s1) (buf s1) = take (len s) (buf s) @ B"
  using assms
proof (induction B arbitrary: s)
  case Nil
  then show ?case by simp
next
  case (Cons c B)
  from Cons.prems have lt: "Suc (len s) < size_slip s" by simp
  define p where "p = last (slip_esc c)"
  have p: "p \<noteq> ESC" by (simp add: p_def last_slip_esc)
  let ?s1 = "s\<lparr>buf := (buf s)[len s := c], len := Suc (len s), prev := p\<rparr>"
  have e: "slip_feed s (slip_esc c) = Some (?s1, [])"
    unfolding p_def by (rule slip_feed_esc [OF Cons.prems(1-3) lt])
  have "\<exists>s2. slip_feed ?s1 (concat (map slip_esc B)) = Some (s2, []) \<and> mode s2 = mode ?s1
           \<and> prev s2 \<noteq> ESC \<and> size_slip s2 = size_slip ?s1 \<and> length (buf s2) = size_slip ?s1
           \<and> len s2 = len ?s1 + length B
           \<and> take (len s2) (buf s2) = take (len ?s1) (buf ?s1) @ B"
    by (rule Cons.IH) (use Cons.prems p in simp_all)
  then obtain s2 where
    s2: "slip_feed ?s1 (concat (map slip_esc B)) = Some (s2, [])" "mode s2 = mode s"
      "prev s2 \<noteq> ESC" "size_slip s2 = size_slip s" "length (buf s2) = size_slip s"
      "len s2 = Suc (len s) + length B"
      "take (len s2) (buf s2) = take (Suc (len s)) ((buf s)[len s := c]) @ B"
    by auto
  have "take (Suc (len s)) ((buf s)[len s := c]) = take (len s) (buf s) @ [c]"
    using Cons.prems(3) lt by (simp add: take_Suc_conv_app_nth)
  with s2 e show ?case
    by (simp add: slip_feed_append)
qed

text \<open>
  Claim C2, as amended. For every sequence of bytes \<open>B\<close> that is not empty and shorter than
  the capacity of the buffer, the bytes that \<open>slip_send\<close> emits for \<open>B\<close>, processed one at
  a time from a state in serial mode, yield exactly one packet, and its contents are \<open>B\<close>;
  the decoder is back in serial mode, with length zero.
\<close>

theorem slip_roundtrip:
  assumes "mode s = 0" "length (buf s) = size_slip s" "0 < length B" "length B < size_slip s"
  shows "\<exists>s1. slip_feed s (slip_send B) = Some (s1, [B]) \<and> mode s1 = 0 \<and> len s1 = 0"
proof -
  let ?s1 = "s\<lparr>prev := END, len := 0, mode := 1\<rparr>"
  have open_frame: "slip_recv END s = Some (0, ?s1)"
    using assms(1) by (simp add: slip_recv_def slip_flip_def Let_def)
  have "\<exists>s2. slip_feed ?s1 (concat (map slip_esc B)) = Some (s2, []) \<and> mode s2 = mode ?s1
           \<and> prev s2 \<noteq> ESC \<and> size_slip s2 = size_slip ?s1 \<and> length (buf s2) = size_slip ?s1
           \<and> len s2 = len ?s1 + length B
           \<and> take (len s2) (buf s2) = take (len ?s1) (buf ?s1) @ B"
    by (rule slip_feed_payload) (use assms slip_consts_distinct in simp_all)
  then obtain s2 where
    s2: "slip_feed ?s1 (concat (map slip_esc B)) = Some (s2, [])" "mode s2 = 1"
      "prev s2 \<noteq> ESC" "size_slip s2 = size_slip s" "len s2 = length B"
      "take (length B) (buf s2) = B"
    by auto
  let ?s3 = "s2\<lparr>prev := END, len := 0, mode := 0\<rparr>"
  have close_frame: "slip_recv END s2 = Some (length B, ?s3)"
    using s2 assms(4) slip_consts_distinct
    by (simp add: slip_recv_def slip_recv_net_def slip_overflow_def slip_flip_def Let_def)
  have "slip_feed s (slip_send B) = Some (?s3, [B])"
    using open_frame s2 close_frame assms(3)
    by (simp add: slip_send_def slip_feed_append)
  then show ?thesis by simp
qed

theorem slip_roundtrip_witness:
  "mode (slip_main (replicate 32768 0)) = 0
   \<and> length (buf (slip_main (replicate 32768 0))) = size_slip (slip_main (replicate 32768 0))
   \<and> 0 < length [0xC0, 0xDB, 0x01 :: u8]
   \<and> length [0xC0, 0xDB, 0x01 :: u8] < size_slip (slip_main (replicate 32768 0))
   \<and> (\<exists>s1. slip_feed (slip_main (replicate 32768 0)) (slip_send [0xC0, 0xDB, 0x01])
               = Some (s1, [[0xC0, 0xDB, 0x01]])
            \<and> mode s1 = 0 \<and> len s1 = 0)"
proof -
  have h: "mode (slip_main (replicate 32768 0)) = 0"
    "length (buf (slip_main (replicate 32768 0))) = size_slip (slip_main (replicate 32768 0))"
    "0 < length [0xC0, 0xDB, 0x01 :: u8]"
    "length [0xC0, 0xDB, 0x01 :: u8] < size_slip (slip_main (replicate 32768 0))"
    by (simp_all add: slip_main_def)
  from slip_roundtrip [OF h] h show ?thesis by blast
qed

text \<open>
  Claim C2 as stated fails at both ends. For the empty sequence, the closing delimiter
  makes \<open>slip_recv\<close> return the length 0, which is its result for "no packet": the
  decoder that \<open>main\<close> sets up yields no packet at all. And a sequence as long as the
  buffer (here 32768 bytes \<open>0x01\<close>) overflows it: the length is reset, and again no packet
  is yielded.
\<close>

theorem slip_roundtrip_counterexample:
  "map_option snd (slip_feed (slip_main (replicate 32768 0)) (slip_send [])) = Some []
   \<and> map_option snd (slip_feed (slip_main (replicate 32768 0)) (slip_send (replicate 32768 1)))
       = Some []"
proof -
  let ?s0 = "slip_main (replicate 32768 0)"
  let ?s1 = "?s0\<lparr>prev := END, len := 0, mode := 1\<rparr>"
  have open_frame: "slip_recv END ?s0 = Some (0, ?s1)"
    by (simp add: slip_recv_def slip_flip_def Let_def slip_main_def)
  have empty: "slip_feed ?s0 (slip_send []) = Some (?s1\<lparr>prev := END, len := 0, mode := 0\<rparr>, [])"
    using slip_consts_distinct
    by (simp add: slip_send_def slip_recv_defs slip_main_def)
  have "\<exists>s2. slip_feed ?s1 (concat (map slip_esc (replicate 32767 1))) = Some (s2, [])
           \<and> mode s2 = mode ?s1
           \<and> prev s2 \<noteq> ESC \<and> size_slip s2 = size_slip ?s1 \<and> length (buf s2) = size_slip ?s1
           \<and> len s2 = len ?s1 + length (replicate 32767 (1 :: u8))
           \<and> take (len s2) (buf s2) = take (len ?s1) (buf ?s1) @ replicate 32767 1"
    by (rule slip_feed_payload) (use slip_consts_distinct in \<open>simp_all add: slip_main_def\<close>)
  then obtain s2 where
    s2: "slip_feed ?s1 (concat (map slip_esc (replicate 32767 1))) = Some (s2, [])" "mode s2 = 1"
      "prev s2 \<noteq> ESC" "size_slip s2 = 32768" "length (buf s2) = 32768" "len s2 = 32767"
    by (auto simp: slip_main_def)
  let ?s3 = "s2\<lparr>buf := (buf s2)[len s2 := 1], len := 0, prev := 1\<rparr>"
  have last_byte: "slip_recv 1 s2 = Some (0, ?s3)"
    using s2 by (simp add: slip_recv_defs END_def ESC_def ESC_END_def ESC_ESC_def)
  have close_frame: "slip_recv END ?s3 = Some (0, ?s3\<lparr>prev := END, len := 0, mode := 0\<rparr>)"
    using s2 by (simp add: slip_recv_defs END_def ESC_def ESC_END_def ESC_ESC_def)
  have "replicate 32768 (1 :: u8) = replicate (Suc 32767) 1" by simp
  also have "\<dots> = replicate 32767 1 @ [1]"
    by (simp only: replicate_Suc replicate_append_same)
  finally have split: "replicate 32768 (1 :: u8) = replicate 32767 1 @ [1]" .
  have one: "slip_esc 1 = [1]"
    by (simp add: slip_esc_def END_def ESC_def)
  have enc: "slip_send (replicate 32768 1)
               = [END] @ concat (map slip_esc (replicate 32767 1)) @ [1] @ [END]"
    by (simp add: slip_send_def split one)
  have "slip_feed ?s0 (slip_send (replicate 32768 1))
          = Some (?s3\<lparr>prev := END, len := 0, mode := 0\<rparr>, [])"
    unfolding enc
    using open_frame s2(1) last_byte close_frame
    by (simp add: slip_feed_append)
  with empty show ?thesis by simp
qed


section \<open>Properties of the serial commands\<close>

text \<open>
  Claim C7. The request of \<open>cmd\<close> for the operation 10 (\<open>READ_REG\<close>) with the 4 bytes of the
  little-endian word \<open>0x40001000\<close> as its body and the checksum 0 is, before
  \<open>slip_send\<close> wraps it, the header \<open>00 0A 04 00 00 00 00 00\<close> followed by the body
  \<open>00 10 00 40\<close>; it is the request that \<open>read32\<close> sends for that address.
\<close>

theorem cmd_request_read_reg:
  "cmd_request 10 (le32 0x40001000) 4 0
     = Inr ([0x00, 0x0A, 0x04, 0x00, 0x00, 0x00, 0x00, 0x00] @ [0x00, 0x10, 0x00, 0x40])
   \<and> le32 0x40001000 = [0x00, 0x10, 0x00, 0x40]
   \<and> read32_request 0x40001000 = cmd_request 10 (le32 0x40001000) 4 0"
  by (simp add: read32_request_def cmd_request_def le32_def le16_def)

text \<open>
  Claim C1, as amended. For every packet that \<open>cmd\<close> accepts (at least 10 bytes, the
  first byte 1, the second the pending operation), the status is read at offset
  \<open>r - 2\<close> when the chip id is \<open>0xfff0c101\<close> (ESP8266) or 0 (the unknown chip, the default),
  and at offset \<open>r - 4\<close> for every other chip id.
\<close>

theorem cmd_status_offset:
  assumes "10 \<le> r" "b ! 0 = 1" "b ! 1 = op"
  shows "cmd_frame chip_id op b r =
           Some (cmd_ecode b (if chip_id = 0xfff0c101 \<or> chip_id = 0 then r - 2 else r - 4))"
  using assms by (simp add: cmd_frame_def cmd_eofs_def CHIP_ID_ESP8266_def)

theorem cmd_status_offset_witness:
  "(10 :: nat) \<le> 12
   \<and> [0x01, 0x08, 0x04, 0x00, 0x07, 0x07, 0x12, 0x20, 0x01, 0x05, 0x00, 0x00 :: u8] ! 0 = 1
   \<and> [0x01, 0x08, 0x04, 0x00, 0x07, 0x07, 0x12, 0x20, 0x01, 0x05, 0x00, 0x00 :: u8] ! 1 = 8
   \<and> cmd_frame CHIP_ID_ESP32 8
         [0x01, 0x08, 0x04, 0x00, 0x07, 0x07, 0x12, 0x20, 0x01, 0x05, 0x00, 0x00] 12 = Some 5"
proof -
  let ?b = "[0x01, 0x08, 0x04, 0x00, 0x07, 0x07, 0x12, 0x20, 0x01, 0x05, 0x00, 0x00 :: u8]"
  have h: "(10 :: nat) \<le> 12" "?b ! 0 = 1" "?b ! 1 = 8"
    by simp_all
  from cmd_status_offset [OF h, of CHIP_ID_ESP32]
  have "cmd_frame CHIP_ID_ESP32 8 ?b 12 = Some 5"
    by (simp add: cmd_ecode_def CHIP_ID_ESP32_def)
  with h show ?thesis by simp
qed

text \<open>
  Claim C1 as stated fails for the unknown chip. With the chip that \<open>main\<close> sets (id 0),
  \<open>cmd\<close> for the operation 8 receives a 12-byte reply whose bytes at offset \<open>12 - 4\<close> are
  \<open>01 05\<close> (an error, code 5) and whose bytes at offset \<open>12 - 2\<close> are \<open>00 00\<close>: it returns 0,
  the status at offset \<open>12 - 2\<close>.
\<close>

theorem cmd_status_offset_counterexample:
  "map_option fst
     (cmd_scan (id_chip chip_main) 8 (slip_main (replicate 32768 0))
        [0xC0, 0x01, 0x08, 0x04, 0x00, 0x07, 0x07, 0x12, 0x20, 0x01, 0x05, 0x00, 0x00, 0xC0])
     = Some (Some 0)
   \<and> cmd_ecode [0x01, 0x08, 0x04, 0x00, 0x07, 0x07, 0x12, 0x20, 0x01, 0x05, 0x00, 0x00] (12 - 4)
       = 5"
  by (simp add: chip_main_def slip_main_def slip_recv_defs cmd_frame_def cmd_eofs_def
      cmd_ecode_def END_def ESC_def ESC_END_def ESC_ESC_def nth_list_update)


section \<open>Properties of \<open>FLASH_BEGIN\<close>\<close>

lemma unat_flash_begin_d1size:
  "unat (flash_begin_d1size chip_id) =
     (if chip_id \<in> {CHIP_ID_ESP32_S2, CHIP_ID_ESP32_S3_BETA2, CHIP_ID_ESP32_S3_BETA3,
                     CHIP_ID_ESP32_C6_BETA, CHIP_ID_ESP32_C3_ECO_1_2, CHIP_ID_ESP32_C3_ECO3}
      then 20 else 16)"
  by (simp add: flash_begin_d1size_def Let_def)

lemma le16_flash_begin_d1size:
  "le16 (flash_begin_d1size chip_id) =
     (if chip_id \<in> {CHIP_ID_ESP32_S2, CHIP_ID_ESP32_S3_BETA2, CHIP_ID_ESP32_S3_BETA3,
                     CHIP_ID_ESP32_C6_BETA, CHIP_ID_ESP32_C3_ECO_1_2, CHIP_ID_ESP32_C3_ECO3}
      then [20, 0] else [16, 0])"
  by (simp add: flash_begin_d1size_def Let_def le16_def)

text \<open>
  Claim C3, as amended. The body of the \<open>FLASH_BEGIN\<close> request is the four little-endian
  32-bit words size, number of blocks, block size (4096) and offset, 16 bytes; for the
  chip ids of the S2, S3, C3 and C6 a fifth word, zero (not encrypted), follows, and the
  body has 20 bytes.
\<close>

theorem flash_begin_body_layout:
  "flash_begin_body chip_id fsize flash_offset =
     Inr (le32 (word_of_int fsize) @ le32 ((word_of_int fsize + 4095) div 4096) @ le32 4096
          @ le32 flash_offset
          @ (if chip_id \<in> {CHIP_ID_ESP32_S2, CHIP_ID_ESP32_S3_BETA2, CHIP_ID_ESP32_S3_BETA3,
                            CHIP_ID_ESP32_C6_BETA, CHIP_ID_ESP32_C3_ECO_1_2, CHIP_ID_ESP32_C3_ECO3}
             then le32 0 else []))
   \<and> map_sum id length (flash_begin_body chip_id fsize flash_offset) =
       Inr (if chip_id \<in> {CHIP_ID_ESP32_S2, CHIP_ID_ESP32_S3_BETA2, CHIP_ID_ESP32_S3_BETA3,
                           CHIP_ID_ESP32_C6_BETA, CHIP_ID_ESP32_C3_ECO_1_2, CHIP_ID_ESP32_C3_ECO3}
            then 20 else 16)"
  by (simp add: flash_begin_body_def flash_begin_request_def flash_begin_d1_def
      cmd_request_def Let_def length_le32 unat_flash_begin_d1size le16_flash_begin_d1size
      add.commute)

theorem flash_begin_body_layout_witness:
  "flash_begin_body CHIP_ID_ESP32_S2 8192 0x1000 =
     Inr [0x00, 0x20, 0x00, 0x00, 0x02, 0x00, 0x00, 0x00, 0x00, 0x10, 0x00, 0x00,
          0x00, 0x10, 0x00, 0x00, 0x00, 0x00, 0x00, 0x00]"
  using flash_begin_body_layout [of CHIP_ID_ESP32_S2 8192 "0x1000"]
  by (simp add: le32_def)

text \<open>
  Claim C3 as stated fails for the ESP32: for a file of 8192 bytes to be written at
  \<open>0x1000\<close>, the body has 16 bytes, the four words 8192, 2, 4096 and \<open>0x1000\<close>, and no
  fifth word.
\<close>

theorem flash_begin_body_counterexample:
  "flash_begin_body CHIP_ID_ESP32 8192 0x1000 =
     Inr [0x00, 0x20, 0x00, 0x00, 0x02, 0x00, 0x00, 0x00, 0x00, 0x10, 0x00, 0x00,
          0x00, 0x10, 0x00, 0x00]"
  by (simp add: flash_begin_body_def flash_begin_request_def flash_begin_d1_def
      flash_begin_d1size_def cmd_request_def le32_def le16_def Let_def
      CHIP_ID_ESP32_def CHIP_ID_ESP32_S2_def CHIP_ID_ESP32_S3_BETA2_def CHIP_ID_ESP32_S3_BETA3_def
      CHIP_ID_ESP32_C6_BETA_def CHIP_ID_ESP32_C3_ECO_1_2_def CHIP_ID_ESP32_C3_ECO3_def)


section \<open>Properties of chip detection\<close>

text \<open>The loop over the registry ends in the unknown-chip failure exactly for an absent id.\<close>

lemma chip_lookup_unknown:
  "(chip_lookup cur v ks = Inl (Unknown_chip_ID w)) = (v \<notin> id_chip ` set ks \<and> w = v)"
  by (induction ks) auto

text \<open>
  Claim C9. When the value read from the register is 0 and the chip of the session has
  the id 0 (no chip was chosen by the user), \<open>chip_detect\<close> succeeds and the chip of the
  session is the entry \<open>Unknown\<close> of the registry, with id 0 and bootloader offset 0. And
  \<open>chip_detect\<close> fails with the unknown-chip failure exactly when the register was read
  and its value is the id of no entry of the registry.
\<close>

theorem chip_detect_zero_id:
  assumes "id_chip cur = 0"
  shows "chip_detect cur 0 0 = Inr \<lparr>id_chip = 0, name = ''Unknown'', bla = 0\<rparr>
         \<and> hd s_known_chips = \<lparr>id_chip = 0, name = ''Unknown'', bla = 0\<rparr>
         \<and> ((chip_detect cur1 ok v = Inl (Unknown_chip_ID w))
              = (ok = 0 \<and> v \<notin> id_chip ` set s_known_chips \<and> w = v))"
proof -
  have "chip_detect cur 0 0 = Inr \<lparr>id_chip = 0, name = ''Unknown'', bla = 0\<rparr>"
    using assms by (simp add: chip_detect_def s_known_chips_def)
  moreover have "hd s_known_chips = \<lparr>id_chip = 0, name = ''Unknown'', bla = 0\<rparr>"
    by (simp add: s_known_chips_def)
  moreover have "(chip_detect cur1 ok v = Inl (Unknown_chip_ID w))
              = (ok = 0 \<and> v \<notin> id_chip ` set s_known_chips \<and> w = v)"
    by (simp add: chip_detect_def chip_lookup_unknown)
  ultimately show ?thesis by simp
qed

theorem chip_detect_zero_id_witness:
  "id_chip chip_main = 0
   \<and> chip_detect chip_main 0 0 = Inr \<lparr>id_chip = 0, name = ''Unknown'', bla = 0\<rparr>
   \<and> chip_detect chip_main 0 0x12345678 = Inl (Unknown_chip_ID 0x12345678)
   \<and> chip_detect chip_main 0 CHIP_ID_ESP32 \<noteq> Inl (Unknown_chip_ID CHIP_ID_ESP32)"
proof -
  have h: "id_chip chip_main = 0" by (simp add: chip_main_def)
  have absent: "(0x12345678 :: u32) \<notin> id_chip ` set s_known_chips"
    by (simp add: s_known_chips_def CHIP_ID_ESP32_def CHIP_ID_ESP32_S2_def
        CHIP_ID_ESP32_S3_BETA2_def CHIP_ID_ESP32_S3_BETA3_def CHIP_ID_ESP32_C6_BETA_def
        CHIP_ID_ESP32_C3_ECO_1_2_def CHIP_ID_ESP32_C3_ECO3_def CHIP_ID_ESP8266_def)
  have present: "CHIP_ID_ESP32 \<in> id_chip ` set s_known_chips"
    by (simp add: s_known_chips_def)
  from chip_detect_zero_id [OF h, of chip_main 0 "0x12345678" "0x12345678"]
    chip_detect_zero_id [OF h, of chip_main 0 CHIP_ID_ESP32 CHIP_ID_ESP32]
    h absent present
  show ?thesis by simp
qed


section \<open>Properties of \<open>mkbin\<close>\<close>

lemma rd_mem_length: "rd_mem m off k = Inr bs \<Longrightarrow> length bs = k"
  by (auto simp: rd_mem_def split: if_splits)

text \<open>
  The size of a segment aligned to 4, as a 32-bit value, exceeds the size by less than 4:
  the padding loop of a segment, which counts with 8 bits, always ends.
\<close>

lemma segment_padding_le_3:
  "unat ((word_of_nat (align_to (unat (w :: u32)) 4) :: u32) - w) \<le> 3"
proof -
  define k where "k = unat w"
  have k: "k < 2 ^ 32" unfolding k_def using unsigned_less [of w] by simp
  then have "k + 3 < (2 ^ 64 :: nat)" by simp
  then have a: "align_to k 4 = (k + 3) div 4 * 4"
    by (simp add: align_to_def)
  define d where "d = align_to k 4 - k"
  have d: "d \<le> 3" and sum: "align_to k 4 = k + d"
    unfolding d_def a by presburger+
  have "(word_of_nat (align_to k 4) :: u32) - w = word_of_nat (k + d) - word_of_nat k"
    unfolding sum by (simp add: k_def)
  also have "\<dots> = word_of_nat d" by simp
  finally have "unat ((word_of_nat (align_to k 4) :: u32) - w) = unat (word_of_nat d :: u32)"
    by simp
  also have "\<dots> = d" using d by (simp add: unat_of_nat)
  finally show ?thesis using d by (simp add: k_def)
qed

lemma mkbin_segment_length:
  assumes "mkbin_segment elf i cs = Inr (w, cs1)"
  shows "length w < 2 ^ 33"
proof -
  from assms obtain h where h: "elf_get_phdr elf i = Inr h"
    by (auto simp: mkbin_segment_def split: sum.splits)
  define a where "a = (word_of_nat (align_to (unat (p_filesz h)) 4) :: u32)"
  from assms h obtain payload where
    pl: "rd_mem elf (unat (p_offset h)) (unat (p_filesz h)) = Inr payload"
    by (auto simp: mkbin_segment_def Let_def split: sum.splits)
  from assms h pl have np: "\<not> 255 < unat (a - p_filesz h)"
    and w: "w = le32 (p_vaddr h) @ le32 a @ payload @ replicate (unat (a - p_filesz h)) 0"
    by (auto simp: mkbin_segment_def Let_def a_def split: if_splits)
  have "length payload = unat (p_filesz h)" using pl by (rule rd_mem_length)
  moreover have "unat (p_filesz h) < 2 ^ 32" using unsigned_less [of "p_filesz h"] by simp
  ultimately show ?thesis using np by (simp add: w length_le32)
qed

text \<open>The loop runs \<open>k - i\<close> rounds, and what it writes is bounded.\<close>

lemma mkbin_loop_length:
  "mkbin_loop elf i k cs = Inr (ws, cs1) \<Longrightarrow>
     length ws = k - i \<and> length (concat ws) \<le> (k - i) * 2 ^ 33"
proof (induction elf i k cs arbitrary: ws cs1 rule: mkbin_loop.induct)
  case (1 elf i k cs)
  show ?case
  proof (cases "i < k")
    case False
    with "1.prems" show ?thesis by (simp add: mkbin_loop.simps [of elf i k cs])
  next
    case True
    with "1.prems" obtain w cs2 ws1 where
      seg: "mkbin_segment elf (int i) cs = Inr (w, cs2)"
      and rest: "mkbin_loop elf (i + 1) k cs2 = Inr (ws1, cs1)"
      and ws: "ws = w # ws1"
      by (auto simp: mkbin_loop.simps [of elf i k cs] split: sum.splits)
    from "1.IH" [OF True seg refl rest]
    have ih: "length ws1 = k - (i + 1)" "length (concat ws1) \<le> (k - (i + 1)) * 2 ^ 33"
      by simp_all
    have "length w < 2 ^ 33" using seg by (rule mkbin_segment_length)
    moreover have "(k - i) * 2 ^ 33 = 2 ^ 33 + (k - (i + 1)) * (2 ^ 33 :: nat)"
      using True by (simp add: algebra_simps Suc_diff_Suc)
    ultimately show ?thesis using ih True by (simp add: ws)
  qed
qed

text \<open>
  Below \<open>2 ^ 42\<close> the sum in \<open>align_to\<close> does not wrap around, and the padding that
  \<open>mkbin\<close> computes from it brings the file offset to 15 modulo 16.
\<close>

lemma align_to_16:
  assumes "ofs < 2 ^ 42"
  shows "(ofs + (align_to (ofs + 1) 16 - ofs - 1)) mod 16 = 15"
    and "align_to (ofs + 1) 16 - ofs - 1 \<le> 15"
proof -
  have "ofs + 16 < (2 ^ 64 :: nat)" using assms by simp
  then have a: "align_to (ofs + 1) 16 = (ofs + 16) div 16 * 16"
    by (simp add: align_to_def)
  define q where "q = ofs div 16"
  define r where "r = ofs mod 16"
  have ofs: "ofs = q * 16 + r" and r: "r < 16" by (simp_all add: q_def r_def)
  have "(ofs + 16) div 16 = q + 1" unfolding q_def by simp
  then have b: "align_to (ofs + 1) 16 = q * 16 + 16" unfolding a by simp
  then have "ofs + (align_to (ofs + 1) 16 - ofs - 1) = q * 16 + 15" using r ofs by linarith
  then show "(ofs + (align_to (ofs + 1) 16 - ofs - 1)) mod 16 = 15" by simp
  show "align_to (ofs + 1) 16 - ofs - 1 \<le> 15" using b r ofs by linarith
qed

text \<open>
  \<open>mkbin\<close> once the two fields of the header have been read: \<open>h0\<close> stands for the 24 bytes
  of the three headers.
\<close>

lemma mkbin_writes_unfold:
  assumes "elf_get_num_segments elf = Inr phnum" "elf_get_entry_point elf = Inr entrypoint"
  shows "\<exists>h0. length h0 = 24 \<and> h0 ! 1 = (word_of_int phnum :: u8) \<and>
     mkbin_writes chip_id elf =
       (if length elf < 32 then Inl Corrupt_ELF_file
        else if elf ! 4 \<noteq> 1 then Inl (Not_ELF32 (elf ! 4))
        else (case mkbin_loop elf 0 (unat (word_of_int phnum :: u8)) 0xef of
                Inl e \<Rightarrow> Inl e
              | Inr (ws, cs) \<Rightarrow>
                  (if 255 < align_to (length (h0 @ concat ws) + 1) 16 - length (h0 @ concat ws) - 1
                   then Inl Loops_forever
                   else Inr (h0, ws,
                     replicate
                       (align_to (length (h0 @ concat ws) + 1) 16 - length (h0 @ concat ws) - 1) 0,
                     cs))))"
proof -
  define ext :: "u8 list" where
    "ext = (if chip_id = 0x000007c6
            then [0x00, 0, 0, 0, 2, 0, 0, 0, 0, 0, 0, 0, 0, 0, 0, 0]
            else [0xee, 0, 0, 0, 2, 0, 0, 0, 0, 0, 0, 0, 0, 0, 0, 0])"
  define h0 where "h0 = [0xe9, word_of_int phnum :: u8, 0, 0] @ le32 entrypoint @ ext"
  have "length ext = 16" by (simp add: ext_def)
  then have "length h0 = 24" by (simp add: h0_def length_le32)
  moreover have "h0 ! 1 = word_of_int phnum" by (simp add: h0_def)
  moreover have "mkbin_writes chip_id elf =
       (if length elf < 32 then Inl Corrupt_ELF_file
        else if elf ! 4 \<noteq> 1 then Inl (Not_ELF32 (elf ! 4))
        else (case mkbin_loop elf 0 (unat (word_of_int phnum :: u8)) 0xef of
                Inl e \<Rightarrow> Inl e
              | Inr (ws, cs) \<Rightarrow>
                  (if 255 < align_to (length (h0 @ concat ws) + 1) 16 - length (h0 @ concat ws) - 1
                   then Inl Loops_forever
                   else Inr (h0, ws,
                     replicate
                       (align_to (length (h0 @ concat ws) + 1) 16 - length (h0 @ concat ws) - 1) 0,
                     cs))))"
    unfolding mkbin_writes_def assms h0_def ext_def
    by (simp add: Let_def split: sum.splits prod.splits)
  ultimately show ?thesis by blast
qed

text \<open>
  What a run of \<open>mkbin\<close> that writes an image has written: the count of segments in the
  header is \<open>e_phnum\<close> cut to 8 bits, the loop has run that many rounds, and the padding
  ends at an offset of 15 modulo 16.
\<close>

lemma mkbin_writes_shape:
  assumes "mkbin_writes chip_id elf = Inr (hdr, ws, pad, cs)"
  shows "\<exists>e_phnum. rd_u16 elf 44 = Inr e_phnum \<and> length hdr = 24
           \<and> hdr ! 1 = ucast e_phnum \<and> length ws = unat e_phnum mod 256
           \<and> length (hdr @ concat ws @ pad) mod 16 = 15"
proof -
  from assms obtain phnum where ph: "elf_get_num_segments elf = Inr phnum"
    by (cases "elf_get_num_segments elf") (simp_all add: mkbin_writes_def)
  from assms ph obtain entrypoint where en: "elf_get_entry_point elf = Inr entrypoint"
    by (cases "elf_get_entry_point elf") (simp_all add: mkbin_writes_def)
  from mkbin_writes_unfold [OF ph en, of chip_id] obtain h0 where
    lh: "length h0 = 24" and h1: "h0 ! 1 = (word_of_int phnum :: u8)"
    and w1: "mkbin_writes chip_id elf =
       (if length elf < 32 then Inl Corrupt_ELF_file
        else if elf ! 4 \<noteq> 1 then Inl (Not_ELF32 (elf ! 4))
        else (case mkbin_loop elf 0 (unat (word_of_int phnum :: u8)) 0xef of
                Inl e \<Rightarrow> Inl e
              | Inr (ws, cs) \<Rightarrow>
                  (if 255 < align_to (length (h0 @ concat ws) + 1) 16 - length (h0 @ concat ws) - 1
                   then Inl Loops_forever
                   else Inr (h0, ws,
                     replicate
                       (align_to (length (h0 @ concat ws) + 1) 16 - length (h0 @ concat ws) - 1) 0,
                     cs))))"
    by blast
  from assms obtain lp where loop: "mkbin_loop elf 0 (unat (word_of_int phnum :: u8)) 0xef = Inr lp"
    unfolding w1 by (cases "mkbin_loop elf 0 (unat (word_of_int phnum :: u8)) 0xef")
      (simp_all split: if_splits)
  from assms have loop1: "mkbin_loop elf 0 (unat (word_of_int phnum :: u8)) 0xef = Inr (ws, cs)"
    and hdr: "hdr = h0"
    and pad: "pad = replicate (align_to (length (h0 @ concat ws) + 1) 16 - length (h0 @ concat ws) - 1) 0"
    unfolding w1 loop by (cases lp; simp split: if_splits)+
  from ph obtain e_phnum where e: "rd_u16 elf 44 = Inr e_phnum" "phnum = uint e_phnum"
    by (cases "rd_u16 elf 44") (auto simp: elf_get_num_segments_def)
  have n8: "unat (word_of_int phnum :: u8) = unat e_phnum mod 256"
    by (simp add: e unsigned_ucast_eq take_bit_eq_mod)
  from mkbin_loop_length [OF loop1]
  have lw: "length ws = unat e_phnum mod 256"
    and lc: "length (concat ws) \<le> (unat e_phnum mod 256) * 2 ^ 33"
    by (simp_all add: n8)
  have "unat e_phnum mod 256 < 256" by simp
  then have "(unat e_phnum mod 256) * (2 ^ 33 :: nat) \<le> 255 * 2 ^ 33" by simp
  with lc have "length (h0 @ concat ws) < 2 ^ 42" using lh by simp
  from align_to_16(1) [OF this]
  have "length (hdr @ concat ws @ pad) mod 16 = 15" by (simp add: hdr pad add.assoc)
  moreover have "hdr ! 1 = ucast e_phnum" using h1 by (simp add: hdr e)
  ultimately show ?thesis using e lh lw hdr by blast
qed

lemma mkbin_Inr:
  assumes "mkbin chip_id elf = Inr img"
  obtains hdr ws pad cs where "mkbin_writes chip_id elf = Inr (hdr, ws, pad, cs)"
    and "img = hdr @ concat ws @ pad @ [cs]"
proof -
  from assms obtain x where x: "mkbin_writes chip_id elf = Inr x"
    and i: "img = (\<lambda>(hdr, ws, pad, cs). hdr @ concat ws @ pad @ [cs]) x"
    by (cases "mkbin_writes chip_id elf") (auto simp: mkbin_def)
  obtain hdr ws pad cs where "x = (hdr, ws, pad, cs)" by (cases x) auto
  with x i that show ?thesis by simp
qed

text \<open>
  The two padding loops of \<open>mkbin\<close> always end: the failure \<open>Loops_forever\<close> of the model
  is never its result.
\<close>

lemma rd_mem_Inl: "rd_mem m off k = Inl e \<Longrightarrow> e = Out_of_bounds"
  by (simp add: rd_mem_def split: if_splits)

lemma rd_u16_Inl: "rd_u16 m off = Inl e \<Longrightarrow> e = Out_of_bounds"
  by (cases "rd_mem m off 2") (auto simp: rd_u16_def dest: rd_mem_Inl)

lemma rd_u32_Inl: "rd_u32 m off = Inl e \<Longrightarrow> e = Out_of_bounds"
  by (cases "rd_mem m off 4") (auto simp: rd_u32_def dest: rd_mem_Inl)

lemma rd_phdr_Inl: "rd_phdr m off = Inl e \<Longrightarrow> e = Out_of_bounds"
  by (cases "rd_mem m off 32") (auto simp: rd_phdr_def dest: rd_mem_Inl)

lemma elf_get_phdr_Inl: "elf_get_phdr elf no = Inl e \<Longrightarrow> e = Out_of_bounds"
  unfolding elf_get_phdr_def
  by (auto split: sum.splits dest: rd_u32_Inl rd_phdr_Inl)

lemma mkbin_segment_ends: "mkbin_segment elf i cs \<noteq> Inl Loops_forever"
proof (cases "elf_get_phdr elf i")
  case (Inl e)
  then show ?thesis by (auto simp: mkbin_segment_def dest: elf_get_phdr_Inl)
next
  case (Inr h)
  have np: "\<not> 255 < unat ((word_of_nat (align_to (unat (p_filesz h)) 4) :: u32) - p_filesz h)"
    using segment_padding_le_3 [of "p_filesz h"] by simp
  show ?thesis
  proof (cases "rd_mem elf (unat (p_offset h)) (unat (p_filesz h))")
    case (Inl e)
    with Inr show ?thesis by (auto simp: mkbin_segment_def Let_def dest: rd_mem_Inl)
  next
    case (Inr payload)
    with \<open>elf_get_phdr elf i = Inr h\<close> np show ?thesis
      by (simp add: mkbin_segment_def Let_def)
  qed
qed

lemma mkbin_loop_ends: "mkbin_loop elf i k cs \<noteq> Inl Loops_forever"
proof (induction elf i k cs rule: mkbin_loop.induct)
  case (1 elf i k cs)
  show ?case
  proof (cases "i < k")
    case False
    then show ?thesis by (simp add: mkbin_loop.simps [of elf i k cs])
  next
    case True
    show ?thesis
    proof (cases "mkbin_segment elf (int i) cs")
      case (Inl e)
      with mkbin_segment_ends [of elf "int i" cs] True show ?thesis
        by (simp add: mkbin_loop.simps [of elf i k cs])
    next
      case (Inr p)
      obtain w cs1 where p: "p = (w, cs1)" by (cases p)
      from "1.IH" [OF True Inr [unfolded p] refl]
      have "mkbin_loop elf (i + 1) k cs1 \<noteq> Inl Loops_forever" .
      then show ?thesis using True Inr p
        by (cases "mkbin_loop elf (i + 1) k cs1")
          (auto simp: mkbin_loop.simps [of elf i k cs])
    qed
  qed
qed

lemma mkbin_ends: "mkbin chip_id elf \<noteq> Inl Loops_forever"
proof
  assume a: "mkbin chip_id elf = Inl Loops_forever"
  then have w: "mkbin_writes chip_id elf = Inl Loops_forever"
    by (cases "mkbin_writes chip_id elf") (simp_all add: mkbin_def)
  have "\<exists>phnum. elf_get_num_segments elf = Inr phnum"
  proof (cases "rd_u16 elf 44")
    case (Inl e)
    with w rd_u16_Inl [OF Inl] show ?thesis
      by (simp add: mkbin_writes_def elf_get_num_segments_def)
  next
    case (Inr x)
    then show ?thesis by (simp add: elf_get_num_segments_def)
  qed
  then obtain phnum where ph: "elf_get_num_segments elf = Inr phnum" ..
  have "\<exists>entrypoint. elf_get_entry_point elf = Inr entrypoint"
  proof (cases "rd_u32 elf 24")
    case (Inl e)
    with w ph rd_u32_Inl [OF Inl] show ?thesis
      by (simp add: mkbin_writes_def elf_get_entry_point_def)
  next
    case (Inr x)
    then show ?thesis by (simp add: elf_get_entry_point_def)
  qed
  then obtain entrypoint where en: "elf_get_entry_point elf = Inr entrypoint" ..
  define k where "k = unat (word_of_int phnum :: u8)"
  have "k < 2 ^ LENGTH(8)" unfolding k_def by (rule unsigned_less)
  then have k: "k \<le> 255" by simp
  from mkbin_writes_unfold [OF ph en, of chip_id] obtain h0 where
    lh: "length h0 = 24"
    and w1: "mkbin_writes chip_id elf =
       (if length elf < 32 then Inl Corrupt_ELF_file
        else if elf ! 4 \<noteq> 1 then Inl (Not_ELF32 (elf ! 4))
        else (case mkbin_loop elf 0 k 0xef of
                Inl e \<Rightarrow> Inl e
              | Inr (ws, cs) \<Rightarrow>
                  (if 255 < align_to (length (h0 @ concat ws) + 1) 16 - length (h0 @ concat ws) - 1
                   then Inl Loops_forever
                   else Inr (h0, ws,
                     replicate
                       (align_to (length (h0 @ concat ws) + 1) 16 - length (h0 @ concat ws) - 1) 0,
                     cs))))"
    unfolding k_def by blast
  have chk: "\<not> length elf < 32" "elf ! 4 = 1"
    using w unfolding w1 by (auto split: if_splits)
  have "\<exists>ws cs. mkbin_loop elf 0 k 0xef = Inr (ws, cs)"
  proof (cases "mkbin_loop elf 0 k 0xef")
    case (Inl e)
    with w chk mkbin_loop_ends [of elf 0 k "0xef"] show ?thesis
      unfolding w1 by simp
  next
    case (Inr p)
    then show ?thesis by (cases p) simp
  qed
  then obtain ws cs where loop: "mkbin_loop elf 0 k 0xef = Inr (ws, cs)" by blast
  define ofs where "ofs = length (h0 @ concat ws)"
  from mkbin_loop_length [OF loop] have "length (concat ws) \<le> k * 2 ^ 33" by simp
  also have "\<dots> \<le> 255 * 2 ^ 33" using k by simp
  finally have "ofs < 2 ^ 42" by (simp add: ofs_def lh)
  from align_to_16(2) [OF this] have "\<not> 255 < align_to (ofs + 1) 16 - ofs - 1" by simp
  with w chk loop show False
    unfolding w1 ofs_def by simp
qed

lemmas mkbin_eval =
  mkbin_def mkbin_writes_def elf_get_num_segments_def elf_get_entry_point_def
  rd_u16_def rd_u32_def rd_mem_def le_val_def le32_def mkbin_segment_def elf_get_phdr_def
  rd_phdr_def align_to_def checksum2_def Let_def replicate_numeral_Cons mkbin_loop.simps

text \<open>The image of the example file, for the unknown chip.\<close>

lemma mkbin_elf_example:
  "mkbin 0 elf_example = Inr image_example"
  by (simp add: mkbin_eval elf_example_def image_example_def)

lemma mkbin_elf_example_258:
  "mkbin 0 elf_example_258 = Inr image_example"
  by (simp add: mkbin_eval elf_example_258_def elf_example_def image_example_def)

text \<open>
  Claim C8. Every image that \<open>mkbin\<close> writes ends with the checksum byte, which is the
  one byte after the headers, the segments and the padding; the offset of that byte in
  the file is 15 modulo 16, and the length of the file is a multiple of 16.
\<close>

theorem mkbin_checksum_offset:
  assumes "mkbin chip_id elf = Inr img"
  shows "\<exists>hdr ws pad cs. mkbin_writes chip_id elf = Inr (hdr, ws, pad, cs)
           \<and> img = (hdr @ concat ws @ pad) @ [cs]
           \<and> length (hdr @ concat ws @ pad) mod 16 = 15
           \<and> length img mod 16 = 0"
proof -
  from assms obtain hdr ws pad cs where
    w: "mkbin_writes chip_id elf = Inr (hdr, ws, pad, cs)"
    and img: "img = hdr @ concat ws @ pad @ [cs]"
    by (rule mkbin_Inr)
  from mkbin_writes_shape [OF w]
  have m: "length (hdr @ concat ws @ pad) mod 16 = 15" by blast
  have "length img = Suc (length (hdr @ concat ws @ pad))" by (simp add: img)
  then have "length img mod 16 = 0" using m by (simp add: mod_Suc)
  with w img m show ?thesis by auto
qed

theorem mkbin_checksum_offset_witness:
  "mkbin 0 elf_example = Inr image_example
   \<and> (\<exists>hdr ws pad cs. mkbin_writes 0 elf_example = Inr (hdr, ws, pad, cs)
         \<and> image_example = (hdr @ concat ws @ pad) @ [cs]
         \<and> length (hdr @ concat ws @ pad) mod 16 = 15
         \<and> length image_example mod 16 = 0)"
  using mkbin_elf_example mkbin_checksum_offset [OF mkbin_elf_example]
  by (rule conjI)

text \<open>
  Claim C10. In every image that \<open>mkbin\<close> writes, the byte at offset 1 is \<open>e_phnum\<close>, the
  16-bit field of the ELF header, modulo 256, and the loop over the segments has run
  that number of rounds.
\<close>

theorem mkbin_num_segments:
  assumes "mkbin chip_id elf = Inr img"
  shows "\<exists>e_phnum hdr ws pad cs. rd_u16 elf 44 = Inr e_phnum
           \<and> mkbin_writes chip_id elf = Inr (hdr, ws, pad, cs)
           \<and> img = hdr @ concat ws @ pad @ [cs]
           \<and> unat (img ! 1) = unat e_phnum mod 256
           \<and> length ws = unat e_phnum mod 256"
proof -
  from assms obtain hdr ws pad cs where
    w: "mkbin_writes chip_id elf = Inr (hdr, ws, pad, cs)"
    and img: "img = hdr @ concat ws @ pad @ [cs]"
    by (rule mkbin_Inr)
  from mkbin_writes_shape [OF w] obtain e_phnum where
    e: "rd_u16 elf 44 = Inr e_phnum" "length hdr = 24" "hdr ! 1 = ucast e_phnum"
       "length ws = unat e_phnum mod 256"
    by blast
  have "img ! 1 = hdr ! 1" using e(2) by (simp add: img nth_append)
  then have "unat (img ! 1) = unat e_phnum mod 256"
    using e(3) by (simp add: unsigned_ucast_eq take_bit_eq_mod)
  with w img e show ?thesis by blast
qed

theorem mkbin_num_segments_witness:
  "mkbin 0 elf_example_258 = Inr image_example
   \<and> rd_u16 elf_example_258 44 = Inr 258
   \<and> (\<exists>e_phnum hdr ws pad cs. rd_u16 elf_example_258 44 = Inr e_phnum
         \<and> mkbin_writes 0 elf_example_258 = Inr (hdr, ws, pad, cs)
         \<and> image_example = hdr @ concat ws @ pad @ [cs]
         \<and> unat (image_example ! 1) = unat e_phnum mod 256
         \<and> length ws = unat e_phnum mod 256)"
proof -
  have "rd_u16 elf_example_258 44 = Inr 258"
    by (simp add: rd_u16_def rd_mem_def le_val_def elf_example_258_def elf_example_def)
  with mkbin_elf_example_258 mkbin_num_segments [OF mkbin_elf_example_258]
  show ?thesis by blast
qed


section \<open>Properties of \<open>mkhex\<close> and \<open>unhex\<close>\<close>

lemmas hex_print_defs =
  printhexhiaddrline_def printhexline_def printf_0x_def hex_str.simps hexdigit_def Let_def
  replicate_numeral_Cons

lemmas unhex_line_defs =
  unhex_line_def hex_to_ul_def hex_digit_val_def fopen_wb_def fputcs_def isspace_c_def Let_def

text \<open>
  Characters that are not white space fill the line buffer, as long as the line stays
  shorter than the buffer.
\<close>

lemma unhex_loop_chars:
  assumes "\<forall>c \<in> set line. \<not> isspace_c c \<and> c \<noteq> CHR 0x0A"
    and "u_n st + length line < 600" and "length (u_tmp st) = 600"
  shows "unhex_loop st (line @ rest) =
     unhex_loop (st\<lparr>u_tmp := take (u_n st) (u_tmp st) @ line
                               @ drop (u_n st + length line) (u_tmp st),
                    u_n := u_n st + length line\<rparr>) rest"
  using assms
proof (induction line arbitrary: st)
  case Nil
  then show ?case by simp
next
  case (Cons c line)
  let ?st1 = "st\<lparr>u_tmp := (u_tmp st)[u_n st := c], u_n := u_n st + 1\<rparr>"
  have step: "unhex_char c st = Inr ?st1"
    using Cons.prems by (simp add: unhex_char_def Let_def)
  have upd: "(u_tmp st)[u_n st := c]
               = take (u_n st) (u_tmp st) @ c # drop (Suc (u_n st)) (u_tmp st)"
    using Cons.prems by (simp add: upd_conv_take_nth_drop)
  have "unhex_loop ?st1 (line @ rest) =
     unhex_loop (?st1\<lparr>u_tmp := take (u_n ?st1) (u_tmp ?st1) @ line
                                 @ drop (u_n ?st1 + length line) (u_tmp ?st1),
                    u_n := u_n ?st1 + length line\<rparr>) rest"
    by (rule Cons.IH) (use Cons.prems in simp_all)
  moreover have "take (u_n ?st1) (u_tmp ?st1) @ line @ drop (u_n ?st1 + length line) (u_tmp ?st1)
      = take (u_n st) (u_tmp st) @ (c # line) @ drop (u_n st + length (c # line)) (u_tmp st)"
    using Cons.prems by (simp add: upd take_Suc_conv_app_nth add.commute)
  ultimately show ?case using step by simp
qed

text \<open>A whole line, up to its newline, is then handed to \<open>unhex_line\<close>.\<close>

lemma unhex_loop_line:
  assumes "\<forall>c \<in> set line. \<not> isspace_c c \<and> c \<noteq> CHR 0x0A"
    and "length line < 600" and "length (u_tmp st) = 600" and "u_n st = 0"
  shows "unhex_loop st (line @ CHR 0x0A # rest) =
     (case unhex_line (st\<lparr>u_tmp := line @ drop (length line) (u_tmp st), u_n := length line\<rparr>) of
        Inl e \<Rightarrow> Inl e
      | Inr st1 \<Rightarrow> unhex_loop st1 rest)"
proof -
  have "unhex_loop st (line @ CHR 0x0A # rest) =
     unhex_loop (st\<lparr>u_tmp := take (u_n st) (u_tmp st) @ line
                               @ drop (u_n st + length line) (u_tmp st),
                    u_n := u_n st + length line\<rparr>) (CHR 0x0A # rest)"
    by (rule unhex_loop_chars) (use assms in simp_all)
  then show ?thesis using assms
    by (simp add: unhex_char_def isspace_c_def Let_def)
qed

lemma line_buffer_length:
  "length T = 600 \<Longrightarrow> length L \<le> 600 \<Longrightarrow> length (L @ drop (length L) T) = 600"
  by simp

lemma upt_0_16: "[0..<16] = [0, 1, 2, 3, 4, 5, 6, 7, 8, 9, 10, 11, 12, 13, 14, 15]"
  by (simp add: upt_conv_Cons)

text \<open>The end record closes the output file.\<close>

lemma unhex_end_line:
  assumes "length T = 600"
  shows "unhex_loop \<lparr>u_tmp = T, u_n = 0, u_upper = U, u_next = N, u_out = Some f,
                      u_files = F\<rparr>
           ('':00000001ff'' @ CHR 0x0A # R) =
         unhex_loop \<lparr>u_tmp = '':00000001ff'' @ drop (length '':00000001ff'') T,
                      u_n = 0, u_upper = U, u_next = N, u_out = None, u_files = F\<rparr> R"
  by (subst unhex_loop_line) (simp_all add: assms unhex_line_defs)

subsection \<open>2 bytes at the address \<open>0x20000\<close>\<close>

text \<open>
  Where no data record runs over the end of a 64 KiB page the text decodes to what was
  encoded: the bytes \<open>AA BB\<close> at \<open>0x20000\<close> give the upper-address record for \<open>0x0002\<close>
  (twice, before the loop and in it), one data record and the end record, and \<open>unhex\<close>
  makes one file of them, \<open>AA BB\<close> at \<open>0x20000\<close>.
\<close>

lemma mkhex_example_text:
  "mkhex [(0x20000, [0xAA, 0xBB])] =
     '':020000040002f8'' @ CHR 0x0A
       # '':020000040002f8'' @ CHR 0x0A
       # '':02000000aabb99'' @ CHR 0x0A
       # '':00000001ff'' @ [CHR 0x0A]"
  by (simp add: mkhex_def mkhex_flush_def hex_print_defs)

lemma unhex_example_line1:
  assumes "length T = 600"
  shows "unhex_loop \<lparr>u_tmp = T, u_n = 0, u_upper = U, u_next = N, u_out = None, u_files = []\<rparr>
           ('':020000040002f8'' @ CHR 0x0A # R) =
         unhex_loop \<lparr>u_tmp = '':020000040002f8'' @ drop (length '':020000040002f8'') T,
                      u_n = 0, u_upper = 0x20000, u_next = N, u_out = None, u_files = []\<rparr> R"
  by (subst unhex_loop_line) (simp_all add: assms unhex_line_defs)

lemma unhex_example_line3:
  assumes "length T = 600"
  shows "unhex_loop \<lparr>u_tmp = T, u_n = 0, u_upper = 0x20000, u_next = N, u_out = None,
                      u_files = []\<rparr>
           ('':02000000aabb99'' @ CHR 0x0A # R) =
         unhex_loop \<lparr>u_tmp = '':02000000aabb99'' @ drop (length '':02000000aabb99'') T,
                      u_n = 0, u_upper = 0x20000, u_next = 0x20002, u_out = Some 0x20000,
                      u_files = [(0x20000, [0xAA, 0xBB])]\<rparr> R"
  by (subst unhex_loop_line) (simp_all add: assms unhex_line_defs upt_conv_Cons)

lemma mkhex_unhex_example:
  "unhex (replicate 600 (CHR 0x00)) (mkhex [(0x20000, [0xAA, 0xBB])])
     = Inr [(0x20000, [0xAA, 0xBB])]"
proof -
  let ?T = "replicate 600 (CHR 0x00)"
  let ?L1 = "'':020000040002f8''"
  let ?L3 = "'':02000000aabb99''"
  have l0: "length ?T = 600" by simp
  have l1: "length (?L1 @ drop (length ?L1) ?T) = 600"
    by (rule line_buffer_length [OF l0]) simp
  have l2: "length (?L1 @ drop (length ?L1) (?L1 @ drop (length ?L1) ?T)) = 600"
    by (rule line_buffer_length [OF l1]) simp
  have l3: "length (?L3 @ drop (length ?L3) (?L1 @ drop (length ?L1) (?L1 @ drop (length ?L1) ?T)))
              = 600"
    by (rule line_buffer_length [OF l2]) simp
  show ?thesis
    unfolding mkhex_example_text unhex_def
    apply (subst unhex_example_line1 [OF l0])
    apply (subst unhex_example_line1 [OF l1])
    apply (subst unhex_example_line3 [OF l2])
    apply (subst unhex_end_line [OF l3])
    apply simp
    done
qed

subsection \<open>17 bytes at the address \<open>0x1FFF8\<close>\<close>

text \<open>The text that \<open>mkhex\<close> prints, four lines.\<close>

lemma mkhex_boundary_text:
  "mkhex [(0x1FFF8, [1, 2, 3, 4, 5, 6, 7, 8, 9, 10, 11, 12, 13, 14, 15, 16, 17])] =
     '':020000040001f9'' @ CHR 0x0A
       # '':10fff8000102030405060708090a0b0c0d0e0f1071'' @ CHR 0x0A
       # '':0100080011e6'' @ CHR 0x0A
       # '':00000001ff'' @ [CHR 0x0A]"
  by (simp add: mkhex_def mkhex_flush_def hex_print_defs)

text \<open>What \<open>unhex\<close> does with each of the four lines.\<close>

lemma unhex_boundary_line1:
  assumes "length T = 600"
  shows "unhex_loop \<lparr>u_tmp = T, u_n = 0, u_upper = U, u_next = N, u_out = None, u_files = []\<rparr>
           ('':020000040001f9'' @ CHR 0x0A # R) =
         unhex_loop \<lparr>u_tmp = '':020000040001f9'' @ drop (length '':020000040001f9'') T,
                      u_n = 0, u_upper = 0x10000, u_next = N, u_out = None, u_files = []\<rparr> R"
  by (subst unhex_loop_line) (simp_all add: assms unhex_line_defs)

lemma unhex_boundary_line2:
  assumes "length T = 600"
  shows "unhex_loop \<lparr>u_tmp = T, u_n = 0, u_upper = 0x10000, u_next = N, u_out = None,
                      u_files = []\<rparr>
           ('':10fff8000102030405060708090a0b0c0d0e0f1071'' @ CHR 0x0A # R) =
         unhex_loop \<lparr>u_tmp = '':10fff8000102030405060708090a0b0c0d0e0f1071''
                        @ drop (length '':10fff8000102030405060708090a0b0c0d0e0f1071'') T,
                      u_n = 0, u_upper = 0x10000, u_next = 0x20008, u_out = Some 0x1FFF8,
                      u_files = [(0x1FFF8, [1, 2, 3, 4, 5, 6, 7, 8, 9, 10, 11, 12, 13, 14, 15, 16])]\<rparr>
           R"
  by (subst unhex_loop_line) (simp_all add: assms unhex_line_defs upt_0_16)

lemma unhex_boundary_line3:
  assumes "length T = 600"
  shows "unhex_loop \<lparr>u_tmp = T, u_n = 0, u_upper = 0x10000, u_next = 0x20008,
                      u_out = Some 0x1FFF8, u_files = [(0x1FFF8, d)]\<rparr>
           ('':0100080011e6'' @ CHR 0x0A # R) =
         unhex_loop \<lparr>u_tmp = '':0100080011e6'' @ drop (length '':0100080011e6'') T,
                      u_n = 0, u_upper = 0x10000, u_next = 0x10009, u_out = Some 0x10008,
                      u_files = [(0x1FFF8, d), (0x10008, [17])]\<rparr> R"
  by (subst unhex_loop_line) (simp_all add: assms unhex_line_defs)

lemma unhex_boundary_text:
  assumes "length T = 600"
  shows "unhex T
    ('':020000040001f9'' @ CHR 0x0A
       # '':10fff8000102030405060708090a0b0c0d0e0f1071'' @ CHR 0x0A
       # '':0100080011e6'' @ CHR 0x0A
       # '':00000001ff'' @ [CHR 0x0A])
   = Inr [(0x1FFF8, [1, 2, 3, 4, 5, 6, 7, 8, 9, 10, 11, 12, 13, 14, 15, 16]), (0x10008, [17])]"
proof -
  note l0 = assms
  have l1: "length ('':020000040001f9'' @ drop (length '':020000040001f9'') T) = 600"
    by (rule line_buffer_length [OF l0]) simp
  have l2: "length ('':10fff8000102030405060708090a0b0c0d0e0f1071''
              @ drop (length '':10fff8000102030405060708090a0b0c0d0e0f1071'')
                  ('':020000040001f9'' @ drop (length '':020000040001f9'') T)) = 600"
    by (rule line_buffer_length [OF l1]) simp
  have l3: "length ('':0100080011e6'' @ drop (length '':0100080011e6'')
             ('':10fff8000102030405060708090a0b0c0d0e0f1071''
              @ drop (length '':10fff8000102030405060708090a0b0c0d0e0f1071'')
                  ('':020000040001f9'' @ drop (length '':020000040001f9'') T))) = 600"
    by (rule line_buffer_length [OF l2]) simp
  show ?thesis
    unfolding unhex_def
    apply (subst unhex_boundary_line1 [OF l0])
    apply (subst unhex_boundary_line2 [OF l1])
    apply (subst unhex_boundary_line3 [OF l2])
    apply (subst unhex_end_line [OF l3])
    apply simp
    done
qed

text \<open>
  Claim C4, that decoding the text which \<open>mkhex\<close> prints for one address above \<open>0xFFFF\<close>
  and one non-empty sequence of bytes gives back one segment with that address and those
  bytes, fails on the code. \<open>mkhex\<close> for the address \<open>0x1FFF8\<close> and the 17 bytes
  \<open>01 .. 11\<close> prints an upper-address record for \<open>0x0001\<close>, a data record of 16 bytes at
  \<open>0xFFF8\<close>, which runs over the end of the 64 KiB page, and a data record of the last
  byte at \<open>0x0008\<close>, with no upper-address record for \<open>0x0002\<close> before it, since \<open>0x20008\<close>
  is not a multiple of \<open>0x10000\<close>. \<open>unhex\<close> makes two files of that text: 16 bytes at
  \<open>0x1FFF8\<close>, and the last byte at \<open>0x10008\<close> instead of \<open>0x20008\<close>.
\<close>

theorem mkhex_unhex_boundary:
  "mkhex [(0x1FFF8, [1, 2, 3, 4, 5, 6, 7, 8, 9, 10, 11, 12, 13, 14, 15, 16, 17])] =
     '':020000040001f9'' @ CHR 0x0A
       # '':10fff8000102030405060708090a0b0c0d0e0f1071'' @ CHR 0x0A
       # '':0100080011e6'' @ CHR 0x0A
       # '':00000001ff'' @ [CHR 0x0A]
   \<and> unhex (replicate 600 (CHR 0x00))
         (mkhex [(0x1FFF8, [1, 2, 3, 4, 5, 6, 7, 8, 9, 10, 11, 12, 13, 14, 15, 16, 17])])
       = Inr [(0x1FFF8, [1, 2, 3, 4, 5, 6, 7, 8, 9, 10, 11, 12, 13, 14, 15, 16]),
              (0x10008, [17])]"
proof -
  have "length (replicate 600 (CHR 0x00)) = 600" by simp
  from unhex_boundary_text [OF this] mkhex_boundary_text
  show ?thesis by (simp only: simp_thms)
qed


end
